theory Spec2Isabelle
  imports Complex_Main
begin

section \<open>JavaScript numbers\<close>

text \<open>
  Every quantity of the program is a TypeScript \<open>number\<close>, an IEEE 754 binary64 value.
  The model keeps a finite number as the real it denotes, and the three values that are
  not finite. Every arithmetic operation rounds its exact result to the nearest binary64
  value, a tie going to the even significand: a result whose rounded magnitude reaches
  \<open>2 ^ 1024\<close> is an infinity, and below \<open>2 ^ -1022\<close> the results lie on the subnormal
  grid of step \<open>2 ^ -1074\<close>.

  The two zeros of IEEE are one value, \<open>Fin 0\<close>. No input of the model is \<open>-0\<close>, and a
  \<open>-0\<close> that arises inside a computation of this program (the product of 0 and a negative
  price, the quotient of 0 and a negative number) is only compared with 0 or added to
  another number, where it behaves as 0; it never becomes a divisor.

  Prices, dividends per share, the monthly investment, the initial balance and the two
  durations are inputs, typed \<open>real\<close>; the program receives them as binary64 values, and
  \<open>double x\<close> is the binary64 value that the decimal literal \<open>x\<close> denotes. Everything the
  program computes from them is typed \<open>number\<close>.
\<close>

datatype number = Fin real | PInf | NInf | NaN

text \<open>
  The binary exponent of a positive real: \<open>log2pos a\<close> halves a number of at least 1 until
  it is below 2, \<open>log2neg a\<close> doubles a number below 1 until it is at least 1.
\<close>

function log2pos :: "real \<Rightarrow> nat" where
  "log2pos a = (if a < 2 then 0 else Suc (log2pos (a / 2)))"
  by pat_completeness auto
termination
proof (relation "measure (\<lambda>a. nat \<lfloor>a\<rfloor>)")
  show "wf (measure (\<lambda>a. nat \<lfloor>a\<rfloor>))" by simp
next
  fix a :: real
  assume "\<not> a < 2"
  then have a: "2 \<le> a" by simp
  then have "a / 2 + 1 \<le> a" by simp
  then have "\<lfloor>a / 2\<rfloor> + 1 \<le> \<lfloor>a\<rfloor>" by linarith
  moreover from a have "0 \<le> \<lfloor>a / 2\<rfloor>" by simp
  ultimately have "nat \<lfloor>a / 2\<rfloor> < nat \<lfloor>a\<rfloor>" by linarith
  then show "(a / 2, a) \<in> measure (\<lambda>a. nat \<lfloor>a\<rfloor>)" by simp
qed

declare log2pos.simps [simp del]

function log2neg :: "real \<Rightarrow> nat" where
  "log2neg a = (if a \<le> 0 \<or> 1 \<le> a then 0 else Suc (log2neg (2 * a)))"
  by pat_completeness auto
termination
proof (relation "measure (\<lambda>a. nat \<lceil>1 / a\<rceil>)")
  show "wf (measure (\<lambda>a. nat \<lceil>1 / a\<rceil>))" by simp
next
  fix a :: real
  assume "\<not> (a \<le> 0 \<or> 1 \<le> a)"
  then have a: "0 < a" "a < 1" by simp_all
  then have one: "1 < 1 / a" by simp
  have half: "1 / (2 * a) = (1 / a) / 2" by simp
  from one have "2 \<le> \<lceil>1 / a\<rceil>" by linarith
  then have "2 \<le> real_of_int \<lceil>1 / a\<rceil>" by linarith
  then have "real_of_int \<lceil>1 / a\<rceil> / 2 + 1 \<le> real_of_int \<lceil>1 / a\<rceil>" by linarith
  moreover have "(1 / a) / 2 \<le> real_of_int \<lceil>1 / a\<rceil> / 2" by simp
  ultimately have "(1 / a) / 2 + 1 \<le> real_of_int \<lceil>1 / a\<rceil>" by linarith
  then have "\<lceil>(1 / a) / 2\<rceil> < \<lceil>1 / a\<rceil>" by linarith
  moreover from a have "0 < \<lceil>1 / a\<rceil>" using one by linarith
  ultimately have "nat \<lceil>(1 / a) / 2\<rceil> < nat \<lceil>1 / a\<rceil>" by linarith
  then show "(2 * a, a) \<in> measure (\<lambda>a. nat \<lceil>1 / a\<rceil>)"
    by (simp add: half)
qed

declare log2neg.simps [simp del]

definition ilog2 :: "real \<Rightarrow> int" where
  "ilog2 a = (if 1 \<le> a then int (log2pos a) else - int (log2neg a))"

text \<open>Rounding to the nearest integer, a tie going to the even one.\<close>

definition roundHalfEven :: "real \<Rightarrow> int" where
  "roundHalfEven t =
     (let f = \<lfloor>t\<rfloor>; r = t - of_int f
      in if r < 1 / 2 then f else if 1 / 2 < r then f + 1 else if even f then f else f + 1)"

text \<open>
  The step of the binary64 grid around a positive real \<open>a\<close> (53 significant bits, the
  exponent not below -1022), the nearest grid point, and the rounding of a real to
  binary64 with overflow to the infinities.
\<close>

definition quantum :: "real \<Rightarrow> real" where
  "quantum a = 2 powi (max (ilog2 a) (- 1022) - 52)"

definition roundMagnitude :: "real \<Rightarrow> real" where
  "roundMagnitude a = of_int (roundHalfEven (a / quantum a)) * quantum a"

definition binary64 :: "real \<Rightarrow> number" where
  "binary64 x =
     (if x = 0 then Fin 0
      else
        (let r = roundMagnitude \<bar>x\<bar>
         in if 2 powi 1024 \<le> r then (if 0 < x then PInf else NInf)
            else Fin (if 0 < x then r else - r)))"

text \<open>
  The binary64 values among the reals, and the binary64 value nearest to a real, which is
  the value of a decimal literal. A literal beyond the finite range denotes an infinity,
  which is no real: \<open>double\<close> is 0 there, and it is used on no such literal.
\<close>

definition isDouble :: "real \<Rightarrow> bool" where
  "isDouble x \<longleftrightarrow> binary64 x = Fin x"

definition double :: "real \<Rightarrow> real" where
  "double x = (case binary64 x of Fin y \<Rightarrow> y | PInf \<Rightarrow> 0 | NInf \<Rightarrow> 0 | NaN \<Rightarrow> 0)"

text \<open>
  The operators of JavaScript on numbers. A sum, a product or a quotient of two finite
  numbers is the rounded exact result; dividing by zero gives an infinity or \<open>NaN\<close>.
\<close>

instantiation number :: "{plus, uminus, minus, times, inverse, ord}"
begin

fun plus_number :: "number \<Rightarrow> number \<Rightarrow> number" where
  "Fin a + Fin b = binary64 (a + b)"
| "NaN + y = NaN"
| "x + NaN = NaN"
| "PInf + NInf = NaN"
| "NInf + PInf = NaN"
| "PInf + y = PInf"
| "x + PInf = PInf"
| "NInf + y = NInf"
| "x + NInf = NInf"

fun uminus_number :: "number \<Rightarrow> number" where
  "- Fin a = Fin (- a)"
| "- PInf = NInf"
| "- NInf = PInf"
| "- NaN = NaN"

definition minus_number_def: "(x :: number) - y = x + (- y)"

fun times_number :: "number \<Rightarrow> number \<Rightarrow> number" where
  "Fin a * Fin b = binary64 (a * b)"
| "NaN * y = NaN"
| "x * NaN = NaN"
| "PInf * Fin b = (if 0 < b then PInf else if b < 0 then NInf else NaN)"
| "NInf * Fin b = (if 0 < b then NInf else if b < 0 then PInf else NaN)"
| "Fin a * PInf = (if 0 < a then PInf else if a < 0 then NInf else NaN)"
| "Fin a * NInf = (if 0 < a then NInf else if a < 0 then PInf else NaN)"
| "PInf * PInf = PInf"
| "PInf * NInf = NInf"
| "NInf * PInf = NInf"
| "NInf * NInf = PInf"

fun divide_number :: "number \<Rightarrow> number \<Rightarrow> number" where
  "divide_number (Fin a) (Fin b) =
     (if b \<noteq> 0 then binary64 (a / b)
      else if 0 < a then PInf else if a < 0 then NInf else NaN)"
| "divide_number NaN y = NaN"
| "divide_number x NaN = NaN"
| "divide_number (Fin a) PInf = Fin 0"
| "divide_number (Fin a) NInf = Fin 0"
| "divide_number PInf (Fin b) = (if 0 \<le> b then PInf else NInf)"
| "divide_number NInf (Fin b) = (if 0 \<le> b then NInf else PInf)"
| "divide_number PInf PInf = NaN"
| "divide_number PInf NInf = NaN"
| "divide_number NInf PInf = NaN"
| "divide_number NInf NInf = NaN"

definition inverse_number_def: "inverse (x :: number) = divide (Fin 1) x"

fun less_number :: "number \<Rightarrow> number \<Rightarrow> bool" where
  "Fin a < Fin b \<longleftrightarrow> a < b"
| "NaN < y \<longleftrightarrow> False"
| "x < NaN \<longleftrightarrow> False"
| "PInf < y \<longleftrightarrow> False"
| "x < NInf \<longleftrightarrow> False"
| "Fin a < PInf \<longleftrightarrow> True"
| "NInf < Fin b \<longleftrightarrow> True"
| "NInf < PInf \<longleftrightarrow> True"

fun less_eq_number :: "number \<Rightarrow> number \<Rightarrow> bool" where
  "Fin a \<le> Fin b \<longleftrightarrow> a \<le> b"
| "NaN \<le> y \<longleftrightarrow> False"
| "x \<le> NaN \<longleftrightarrow> False"
| "x \<le> PInf \<longleftrightarrow> True"
| "NInf \<le> y \<longleftrightarrow> True"
| "PInf \<le> Fin b \<longleftrightarrow> False"
| "PInf \<le> NInf \<longleftrightarrow> False"
| "Fin a \<le> NInf \<longleftrightarrow> False"

instance ..

end

text \<open>\<open>Math.floor\<close> and \<open>Math.max\<close>.\<close>

fun Math_floor :: "number \<Rightarrow> number" where
  "Math_floor (Fin a) = Fin (of_int \<lfloor>a\<rfloor>)"
| "Math_floor x = x"

definition Math_max :: "number \<Rightarrow> number \<Rightarrow> number" where
  "Math_max x y = (if x = NaN \<or> y = NaN then NaN else if x < y then y else x)"

text \<open>The errors a JavaScript run can end with.\<close>

datatype js_error = TypeError | RangeError

section \<open>Data model\<close>

record StockDataPoint =
  date :: string
  formattedDate :: string
  value' :: real
  dividend :: real
  timestamp :: int

record MonthlyDataPoint =
  date :: string
  formattedDate :: string
  stockPrice :: real
  shares :: number
  totalInvested :: number
  portfolioValue :: number
  totalDividends :: number
  cashBalance :: number

text \<open>The optional fields of a chart point are \<open>None\<close> when the object has no such key.\<close>

record ChartDataPoint =
  date :: string
  formattedDate :: string
  portfolioValue :: number
  totalInvested :: number
  shares :: "number option"
  totalDividends :: "number option"
  stockPrice :: real

section \<open>The investment simulator: \<open>calculateInvestmentGrowth\<close>\<close>

text \<open>The four running totals the function keeps in local variables.\<close>

record Totals =
  totalShares :: number
  cashBalance :: number
  totalInvested :: number
  totalDividendsReceived :: number

text \<open>
  The statements before the \<open>map\<close>: the totals start from the initial balance, and a
  positive initial balance buys whole shares at the first price.
\<close>

definition initialTotals :: "StockDataPoint \<Rightarrow> real \<Rightarrow> Totals" where
  "initialTotals first initialBalance =
     (let t = \<lparr>totalShares = Fin 0, cashBalance = Fin initialBalance,
                totalInvested = Fin initialBalance, totalDividendsReceived = Fin 0\<rparr>
      in if 0 < initialBalance then
           (let initialSharesToBuy = Math_floor (Fin initialBalance / Fin (value' first))
            in if Fin 0 < initialSharesToBuy then
                 (let initialCost = initialSharesToBuy * Fin (value' first)
                  in t\<lparr>cashBalance := Totals.cashBalance t - initialCost,
                       totalShares := totalShares t + initialSharesToBuy\<rparr>)
               else t)
         else t)"

text \<open>The body of the \<open>map\<close> callback up to its \<open>return\<close>: the update of the totals.\<close>

definition growthStep :: "real \<Rightarrow> Totals \<Rightarrow> StockDataPoint \<Rightarrow> Totals" where
  "growthStep monthlyInvestment t dataPoint =
     (let t1 = t\<lparr>cashBalance := Totals.cashBalance t + Fin monthlyInvestment,
                  totalInvested := Totals.totalInvested t + Fin monthlyInvestment\<rparr>;
          t2 = (if 0 < dividend dataPoint \<and> Fin 0 < totalShares t1 then
                  (let dividendAmount = Fin (dividend dataPoint) * totalShares t1
                   in t1\<lparr>totalDividendsReceived := totalDividendsReceived t1 + dividendAmount,
                         cashBalance := Totals.cashBalance t1 + dividendAmount\<rparr>)
                else t1);
          sharesToBuy = Math_floor (Totals.cashBalance t2 / Fin (value' dataPoint))
      in if Fin 0 < sharesToBuy then
           (let cost = sharesToBuy * Fin (value' dataPoint)
            in t2\<lparr>cashBalance := Totals.cashBalance t2 - cost,
                  totalShares := totalShares t2 + sharesToBuy\<rparr>)
         else t2)"

text \<open>The object the callback returns, built from the updated totals.\<close>

definition monthlyPoint :: "Totals \<Rightarrow> StockDataPoint \<Rightarrow> MonthlyDataPoint" where
  "monthlyPoint t dataPoint =
     \<lparr>MonthlyDataPoint.date = StockDataPoint.date dataPoint,
      formattedDate = StockDataPoint.formattedDate dataPoint,
      stockPrice = value' dataPoint,
      shares = totalShares t,
      totalInvested = Totals.totalInvested t,
      portfolioValue = Fin (value' dataPoint) * totalShares t + Totals.cashBalance t,
      totalDividends = totalDividendsReceived t,
      cashBalance = Totals.cashBalance t\<rparr>"

text \<open>\<open>data.map\<close> with the totals threaded from one call of the callback to the next.\<close>

fun growthMap :: "real \<Rightarrow> Totals \<Rightarrow> StockDataPoint list \<Rightarrow> MonthlyDataPoint list" where
  "growthMap monthlyInvestment t [] = []"
| "growthMap monthlyInvestment t (dataPoint # rest) =
     (let t' = growthStep monthlyInvestment t dataPoint
      in monthlyPoint t' dataPoint # growthMap monthlyInvestment t' rest)"

text \<open>
  The function reads \<open>data[0].formattedDate\<close> for its log before anything else, which
  throws a \<open>TypeError\<close> on an empty series; it validates nothing.
\<close>

definition calculateInvestmentGrowth ::
    "StockDataPoint list \<Rightarrow> real \<Rightarrow> real \<Rightarrow> js_error + MonthlyDataPoint list" where
  "calculateInvestmentGrowth data monthlyInvestment initialBalance =
     (case data of
        [] \<Rightarrow> Inl TypeError
      | first # _ \<Rightarrow> Inr (growthMap monthlyInvestment (initialTotals first initialBalance) data))"

section \<open>The cross-granularity interpolator: \<open>interpolateChartData\<close>\<close>

text \<open>
  \<open>new Date(s)\<close> belongs to the JavaScript runtime, so the parser is a parameter
  \<open>toTime\<close>: the time value of the date a string parses to, \<open>None\<close> for an
  \<open>Invalid Date\<close>. Comparing two dates with \<open><=\<close> compares their time values and
  is false when either is invalid.
\<close>

definition date_le :: "int option \<Rightarrow> int option \<Rightarrow> bool" where
  "date_le a b = (case a of None \<Rightarrow> False
                  | Some x \<Rightarrow> (case b of None \<Rightarrow> False | Some y \<Rightarrow> x \<le> y))"

text \<open>
  The scan \<open>for (let i = 0; i < monthlyData.length; i++)\<close>: the list argument is the part of
  \<open>monthlyData\<close> from index \<open>i\<close> on; the scan stops at the first monthly date that is not
  \<open><=\<close> the period date.
\<close>

fun matchingLoop ::
    "(string \<Rightarrow> int option) \<Rightarrow> int option \<Rightarrow> MonthlyDataPoint list \<Rightarrow> nat \<Rightarrow> nat \<Rightarrow> nat" where
  "matchingLoop toTime periodDate [] i matchingMonthlyIndex = matchingMonthlyIndex"
| "matchingLoop toTime periodDate (m # rest) i matchingMonthlyIndex =
     (if date_le (toTime (MonthlyDataPoint.formattedDate m)) periodDate
      then matchingLoop toTime periodDate rest (Suc i) i
      else matchingMonthlyIndex)"

text \<open>
  The callback of \<open>periodStockData.map\<close>. \<open>monthlyData[matchingMonthlyIndex]\<close> is
  \<open>undefined\<close> only for an empty monthly series, and reading its \<open>date\<close> then throws.
  \<open>priceRatio\<close> is computed and never used.
\<close>

definition interpolatePoint ::
    "(string \<Rightarrow> int option) \<Rightarrow> MonthlyDataPoint list \<Rightarrow> StockDataPoint
      \<Rightarrow> js_error + ChartDataPoint" where
  "interpolatePoint toTime monthlyData periodPoint =
     (let periodDate = toTime (StockDataPoint.formattedDate periodPoint);
          matchingMonthlyIndex = matchingLoop toTime periodDate monthlyData 0 0
      in if matchingMonthlyIndex < length monthlyData then
           (let prevMonthly = monthlyData ! matchingMonthlyIndex
            in if StockDataPoint.date periodPoint = MonthlyDataPoint.date prevMonthly then
                 Inr \<lparr>ChartDataPoint.date = StockDataPoint.date periodPoint,
                      formattedDate = StockDataPoint.formattedDate periodPoint,
                      portfolioValue = MonthlyDataPoint.portfolioValue prevMonthly,
                      totalInvested = MonthlyDataPoint.totalInvested prevMonthly,
                      shares = None,
                      totalDividends = None,
                      stockPrice = value' periodPoint\<rparr>
               else
                 (let priceRatio = Fin (value' periodPoint)
                                     / Fin (MonthlyDataPoint.stockPrice prevMonthly);
                      shareValue = MonthlyDataPoint.shares prevMonthly * Fin (value' periodPoint);
                      portfolioValue = shareValue + MonthlyDataPoint.cashBalance prevMonthly
                  in Inr \<lparr>ChartDataPoint.date = StockDataPoint.date periodPoint,
                           formattedDate = StockDataPoint.formattedDate periodPoint,
                           portfolioValue = portfolioValue,
                           totalInvested = MonthlyDataPoint.totalInvested prevMonthly,
                           shares = None,
                           totalDividends = None,
                           stockPrice = value' periodPoint\<rparr>))
         else Inl TypeError)"

text \<open>\<open>Array.prototype.map\<close> with a callback that may throw: the first throw ends the map.\<close>

fun mapThrow :: "('a \<Rightarrow> js_error + 'b) \<Rightarrow> 'a list \<Rightarrow> js_error + 'b list" where
  "mapThrow f [] = Inr []"
| "mapThrow f (x # xs) =
     (case f x of
        Inl e \<Rightarrow> Inl e
      | Inr y \<Rightarrow> (case mapThrow f xs of Inl e \<Rightarrow> Inl e | Inr ys \<Rightarrow> Inr (y # ys)))"

definition interpolateChartData ::
    "(string \<Rightarrow> int option) \<Rightarrow> StockDataPoint list \<Rightarrow> MonthlyDataPoint list
      \<Rightarrow> js_error + ChartDataPoint list" where
  "interpolateChartData toTime periodStockData monthlyData =
     mapThrow (interpolatePoint toTime monthlyData) periodStockData"

section \<open>The frame pacer: the two frame loops of \<open>generateVideo\<close>\<close>

text \<open>
  With the chart period \<open>monthly\<close> the chart series is the monthly series itself, point by
  point, and these points do carry the shares and the total dividends.
\<close>

definition monthlyChartPoint :: "MonthlyDataPoint \<Rightarrow> ChartDataPoint" where
  "monthlyChartPoint point =
     \<lparr>ChartDataPoint.date = MonthlyDataPoint.date point,
      formattedDate = MonthlyDataPoint.formattedDate point,
      portfolioValue = MonthlyDataPoint.portfolioValue point,
      totalInvested = MonthlyDataPoint.totalInvested point,
      shares = Some (MonthlyDataPoint.shares point),
      totalDividends = Some (MonthlyDataPoint.totalDividends point),
      stockPrice = MonthlyDataPoint.stockPrice point\<rparr>"

text \<open>
  A frame is what one call of \<open>updateChart\<close> receives from the chart series: \<open>points\<close> is
  the slice of \<open>chartData\<close> whose dates, portfolio values and invested totals are plotted,
  \<open>point\<close> the chart point whose date and price are written, \<open>isFinal\<close> the last
  argument. The title and the two figures written from the monthly series (shares and
  dividends of \<open>currentMonthlyData\<close>) are left out: the monthly series is never empty when
  the loops run, so reading them cannot throw, and they do not influence which frames
  exist or what they plot. The durations are 20 and 3 seconds unless the configuration
  gives others.
\<close>

record Frame =
  points :: "ChartDataPoint list"
  point :: ChartDataPoint
  isFinal :: bool

definition fps :: real where
  "fps = 30"

definition chartFrames :: "real \<Rightarrow> number" where
  "chartFrames chartDuration = Math_floor (Fin chartDuration * Fin fps)"

definition endingFrames :: "real \<Rightarrow> number" where
  "endingFrames endingDuration = Math_floor (Fin endingDuration * Fin fps)"

text \<open>
  \<open>Math.max(1, Math.floor(chartData.length / chartFrames))\<close>. With a zero frame budget
  the quotient is \<open>Infinity\<close> (\<open>NaN\<close> for an empty series), and so is the step.
\<close>

definition frameStep :: "nat \<Rightarrow> number \<Rightarrow> number" where
  "frameStep n cf = Math_max (Fin 1) (Math_floor (Fin (real n) / cf))"

definition growthFrame :: "ChartDataPoint list \<Rightarrow> nat \<Rightarrow> Frame" where
  "growthFrame chartData i =
     \<lparr>points = take (i + 1) chartData, point = chartData ! i, isFinal = False\<rparr>"

text \<open>
  The loop \<open>for (let i = 0; i < chartData.length; i += frameStep)\<close>, from the index \<open>i\<close>
  on. \<open>frameStep\<close> is the same number in every pass; it is a whole number of at least 1,
  or it is not finite. After adding a step that is not finite the index is not below the
  length any more, and the loop ends. An array has fewer than \<open>2 ^ 32\<close> elements, and the
  step is at most the length of the series, so the addition in \<open>i += frameStep\<close> is exact.
\<close>

function growthLoop :: "ChartDataPoint list \<Rightarrow> number \<Rightarrow> nat \<Rightarrow> Frame list" where
  "growthLoop chartData cf i =
     (if i < length chartData then
        growthFrame chartData i #
          (case frameStep (length chartData) cf of
             Fin s \<Rightarrow> growthLoop chartData cf (i + nat \<lfloor>s\<rfloor>)
           | PInf \<Rightarrow> []
           | NInf \<Rightarrow> []
           | NaN \<Rightarrow> [])
      else [])"
  by pat_completeness auto
termination
proof (relation "measure (\<lambda>(chartData, cf, i). length chartData - i)")
  show "wf (measure (\<lambda>(chartData, cf, i). length chartData - i))" by simp
next
  fix chartData :: "ChartDataPoint list" and cf :: number and i :: nat and s :: real
  assume lt: "i < length chartData" and st: "frameStep (length chartData) cf = Fin s"
  from st have "1 \<le> s"
    by (cases "Math_floor (Fin (real (length chartData)) / cf)")
       (auto simp: frameStep_def Math_max_def split: if_splits)
  then have "1 \<le> nat \<lfloor>s\<rfloor>" by linarith
  with lt show "((chartData, cf, i + nat \<lfloor>s\<rfloor>), (chartData, cf, i))
          \<in> measure (\<lambda>(chartData, cf, i). length chartData - i)"
    by simp
qed

declare growthLoop.simps [simp del]

definition growthFrames :: "real \<Rightarrow> ChartDataPoint list \<Rightarrow> Frame list" where
  "growthFrames chartDuration chartData = growthLoop chartData (chartFrames chartDuration) 0"

text \<open>
  The loop \<open>for (let i = 0; i < endingFrames; i++)\<close>, every pass pushing the same frame
  onto \<open>frames\<close>, which holds the growth frames already. An array holds at most
  \<open>2 ^ 32 - 1\<close> elements: \<open>push\<close> on a full array throws a \<open>RangeError\<close>. The counter
  never exceeds the length of \<open>frames\<close>, so \<open>i++\<close> is exact.
\<close>

function endingLoop :: "Frame \<Rightarrow> number \<Rightarrow> nat \<Rightarrow> Frame list \<Rightarrow> js_error + Frame list" where
  "endingLoop f ef i frames =
     (if Fin (real i) < ef then
        (if length frames < 2 ^ 32 - 1 then endingLoop f ef (Suc i) (frames @ [f])
         else Inl RangeError)
      else Inr frames)"
  by pat_completeness auto
termination
  by (relation "measure (\<lambda>(f, ef, i, frames). 2 ^ 32 - 1 - length frames)") auto

declare endingLoop.simps [simp del]

text \<open>
  The frame of the final passes. They read \<open>lastPoint.formattedDate\<close>, which throws on an
  empty series as soon as the loop body runs once.
\<close>

definition finalFrame :: "ChartDataPoint list \<Rightarrow> Frame" where
  "finalFrame chartData = \<lparr>points = chartData, point = last chartData, isFinal = True\<rparr>"

definition freezeFrames ::
    "real \<Rightarrow> ChartDataPoint list \<Rightarrow> Frame list \<Rightarrow> js_error + Frame list" where
  "freezeFrames endingDuration chartData frames =
     (if chartData = [] then
        (if Fin 0 < endingFrames endingDuration then Inl TypeError else Inr frames)
      else endingLoop (finalFrame chartData) (endingFrames endingDuration) 0 frames)"

text \<open>All frames of the video, in the order in which they are pushed.\<close>

definition videoFrames :: "real \<Rightarrow> real \<Rightarrow> ChartDataPoint list \<Rightarrow> js_error + Frame list" where
  "videoFrames chartDuration endingDuration chartData =
     freezeFrames endingDuration chartData (growthFrames chartDuration chartData)"

section \<open>The period step as the specification words it\<close>

text \<open>
  The specification describes one period as three steps taken in a fixed order, followed
  by the emission of the state. These definitions follow its wording, to be compared with
  \<open>growthStep\<close> and \<open>monthlyPoint\<close>, which follow the code.
\<close>

definition spec_contribute :: "real \<Rightarrow> Totals \<Rightarrow> Totals" where
  "spec_contribute contribution t =
     t\<lparr>cashBalance := Totals.cashBalance t + Fin contribution,
       totalInvested := Totals.totalInvested t + Fin contribution\<rparr>"

definition spec_payDividend :: "StockDataPoint \<Rightarrow> Totals \<Rightarrow> Totals" where
  "spec_payDividend period t =
     (if 0 < dividend period \<and> Fin 0 < totalShares t then
        t\<lparr>cashBalance := Totals.cashBalance t + Fin (dividend period) * totalShares t,
          totalDividendsReceived :=
            totalDividendsReceived t + Fin (dividend period) * totalShares t\<rparr>
      else t)"

definition spec_purchase :: "StockDataPoint \<Rightarrow> Totals \<Rightarrow> Totals" where
  "spec_purchase period t =
     (if Fin 0 < Math_floor (Totals.cashBalance t / Fin (value' period)) then
        t\<lparr>cashBalance :=
            Totals.cashBalance t
              - Math_floor (Totals.cashBalance t / Fin (value' period)) * Fin (value' period),
          totalShares :=
            totalShares t + Math_floor (Totals.cashBalance t / Fin (value' period))\<rparr>
      else t)"

definition spec_emit :: "StockDataPoint \<Rightarrow> Totals \<Rightarrow> MonthlyDataPoint" where
  "spec_emit period t =
     \<lparr>MonthlyDataPoint.date = StockDataPoint.date period,
      formattedDate = StockDataPoint.formattedDate period,
      stockPrice = value' period,
      shares = totalShares t,
      totalInvested = Totals.totalInvested t,
      portfolioValue = totalShares t * Fin (value' period) + Totals.cashBalance t,
      totalDividends = totalDividendsReceived t,
      cashBalance = Totals.cashBalance t\<rparr>"

fun spec_periods :: "real \<Rightarrow> Totals \<Rightarrow> StockDataPoint list \<Rightarrow> MonthlyDataPoint list" where
  "spec_periods contribution t [] = []"
| "spec_periods contribution t (period # rest) =
     (let t' = spec_purchase period (spec_payDividend period (spec_contribute contribution t))
      in spec_emit period t' # spec_periods contribution t' rest)"

section \<open>Auxiliary notions\<close>

text \<open>
  The total invested as the specification words it, the cumulative sum of the initial
  balance and the periodic contributions. The contribution is added once per period, by
  the binary64 addition of the code.
\<close>

primrec cumulativeSum :: "real \<Rightarrow> real \<Rightarrow> nat \<Rightarrow> number" where
  "cumulativeSum B C 0 = Fin B"
| "cumulativeSum B C (Suc n) = cumulativeSum B C n + Fin C"


text \<open>A stock data point with the given labels, price and dividend, for concrete series.\<close>

definition stockPoint :: "string \<Rightarrow> string \<Rightarrow> real \<Rightarrow> real \<Rightarrow> StockDataPoint" where
  "stockPoint short long price dividendPerShare =
     \<lparr>StockDataPoint.date = short, formattedDate = long, value' = price,
      dividend = dividendPerShare, timestamp = 0\<rparr>"

text \<open>A monthly price series with one dividend, for concrete runs of the simulator.\<close>

definition exampleSeries :: "StockDataPoint list" where
  "exampleSeries =
     [stockPoint ''Jan 2020'' ''January 2020'' 30 0,
      stockPoint ''Feb 2020'' ''February 2020'' 45 2,
      stockPoint ''Mar 2020'' ''March 2020'' 40 0]"

text \<open>
  The chart point the interpolator's callback builds from the monthly point it matched.
\<close>

definition chartPointFrom :: "MonthlyDataPoint \<Rightarrow> StockDataPoint \<Rightarrow> ChartDataPoint" where
  "chartPointFrom prevMonthly periodPoint =
     \<lparr>ChartDataPoint.date = StockDataPoint.date periodPoint,
      formattedDate = StockDataPoint.formattedDate periodPoint,
      portfolioValue =
        (if StockDataPoint.date periodPoint = MonthlyDataPoint.date prevMonthly
         then MonthlyDataPoint.portfolioValue prevMonthly
         else MonthlyDataPoint.shares prevMonthly * Fin (value' periodPoint)
                + MonthlyDataPoint.cashBalance prevMonthly),
      totalInvested = MonthlyDataPoint.totalInvested prevMonthly,
      shares = None,
      totalDividends = None,
      stockPrice = value' periodPoint\<rparr>"

text \<open>
  A date parser for concrete inputs (days since 1 January 2020), and a monthly series as
  the simulator produces it.
\<close>

definition exampleTime :: "string \<Rightarrow> int option" where
  "exampleTime s =
     (if s = ''December 20, 2019'' then Some (- 12)
      else if s = ''January 2020'' then Some 0
      else if s = ''January 15, 2020'' then Some 14
      else if s = ''February 2020'' then Some 31
      else if s = ''February 10, 2020'' then Some 40
      else None)"

definition exampleMonthly :: "MonthlyDataPoint list" where
  "exampleMonthly =
     [\<lparr>MonthlyDataPoint.date = ''Jan 2020'', formattedDate = ''January 2020'', stockPrice = 10,
       shares = Fin 10, totalInvested = Fin 105, portfolioValue = Fin 105,
       totalDividends = Fin 0, cashBalance = Fin 5\<rparr>,
      \<lparr>MonthlyDataPoint.date = ''Feb 2020'', formattedDate = ''February 2020'', stockPrice = 10,
       shares = Fin 21, totalInvested = Fin 210, portfolioValue = Fin 210,
       totalDividends = Fin 0, cashBalance = Fin 0\<rparr>]"

text \<open>A chart series of \<open>n\<close> points, for concrete inputs of the frame loops.\<close>

definition chartSeries :: "nat \<Rightarrow> ChartDataPoint list" where
  "chartSeries n =
     map (\<lambda>i. \<lparr>ChartDataPoint.date = ''Jan 2020'', formattedDate = ''January 2020'',
                portfolioValue = Fin (real i), totalInvested = Fin (real i),
                shares = None, totalDividends = None, stockPrice = 1\<rparr>) [0..<n]"

section \<open>Properties of the rounding\<close>

lemmas binary64_eval = binary64_def roundMagnitude_def quantum_def ilog2_def log2pos.simps
  log2neg.simps roundHalfEven_def Let_def

lemma log2pos_bounds:
  "1 \<le> a \<Longrightarrow> 2 ^ log2pos a \<le> a \<and> a < 2 ^ Suc (log2pos a)"
proof (induction a rule: log2pos.induct)
  case (1 a)
  show ?case
  proof (cases "a < 2")
    case True
    with "1.prems" show ?thesis by (subst (1 2) log2pos.simps) simp
  next
    case False
    then have "1 \<le> a / 2" by simp
    from "1.IH" [OF False this] False show ?thesis
      by (subst (1 2) log2pos.simps) simp
  qed
qed

lemma log2neg_bounds:
  "0 < a \<Longrightarrow> a < 1 \<Longrightarrow> 1 \<le> 2 ^ log2neg a * a \<and> 2 ^ log2neg a * a < 2"
proof (induction a rule: log2neg.induct)
  case (1 a)
  from "1.prems" have c: "\<not> (a \<le> 0 \<or> 1 \<le> a)" by simp
  show ?case
  proof (cases "2 * a < 1")
    case True
    from "1.prems" have "0 < 2 * a" by simp
    from "1.IH" [OF c this True] c show ?thesis
      by (subst (1 2) log2neg.simps) (simp add: mult.assoc)
  next
    case False
    then have "log2neg (2 * a) = 0" by (subst log2neg.simps) simp
    with c False "1.prems" show ?thesis
      by (subst (1 2) log2neg.simps) simp
  qed
qed

lemma ilog2_bounds:
  assumes "0 < a"
  shows "2 powi (ilog2 a) \<le> a" and "a < 2 powi (ilog2 a + 1)"
proof -
  have "2 powi (ilog2 a) \<le> a \<and> a < 2 powi (ilog2 a + 1)"
  proof (cases "1 \<le> a")
    case True
    from log2pos_bounds [OF True] True show ?thesis
      by (simp add: ilog2_def power_int_add_1)
  next
    case False
    then have lt: "a < 1" by simp
    let ?k = "log2neg a"
    from log2neg_bounds [OF assms lt] have b: "1 \<le> 2 ^ ?k * a" "2 ^ ?k * a < 2" by simp_all
    have p: "(0::real) < 2 ^ ?k" by simp
    have "2 powi (- int ?k) = 1 / (2::real) ^ ?k"
      by (simp add: power_int_minus field_simps)
    moreover have "(2::real) powi (- int ?k + 1) = 2 powi (- int ?k) * 2"
      by (rule power_int_add_1) simp
    then have "2 powi (- int ?k + 1) = 2 / (2::real) ^ ?k"
      by (simp add: power_int_minus field_simps)
    moreover from b(1) p have "1 / 2 ^ ?k \<le> a" by (simp add: field_simps)
    moreover from b(2) p have "a < 2 / 2 ^ ?k" by (simp add: field_simps)
    ultimately show ?thesis using False by (simp add: ilog2_def)
  qed
  then show "2 powi (ilog2 a) \<le> a" and "a < 2 powi (ilog2 a + 1)" by simp_all
qed

lemma ilog2_unique:
  assumes "0 < a" and "2 powi k \<le> a" and "a < 2 powi (k + 1)"
  shows "ilog2 a = k"
proof (rule ccontr)
  assume ne: "ilog2 a \<noteq> k"
  note b = ilog2_bounds [OF assms(1)]
  show False
  proof (cases "ilog2 a < k")
    case True
    then have "ilog2 a + 1 \<le> k" by simp
    then have "(2::real) powi (ilog2 a + 1) \<le> 2 powi k" by (intro power_int_increasing) simp_all
    with b(2) assms(2) show False by simp
  next
    case False
    with ne have "k + 1 \<le> ilog2 a" by simp
    then have "(2::real) powi (k + 1) \<le> 2 powi (ilog2 a)" by (intro power_int_increasing) simp_all
    with b(1) assms(3) show False by simp
  qed
qed

lemma ilog2_mono:
  assumes "0 < a" and "a \<le> b"
  shows "ilog2 a \<le> ilog2 b"
proof (rule ccontr)
  assume "\<not> ilog2 a \<le> ilog2 b"
  then have "ilog2 b + 1 \<le> ilog2 a" by simp
  then have "(2::real) powi (ilog2 b + 1) \<le> 2 powi (ilog2 a)"
    by (intro power_int_increasing) simp_all
  moreover from assms have "0 < b" by simp
  ultimately show False
    using ilog2_bounds(1) [OF assms(1)] ilog2_bounds(2) [OF \<open>0 < b\<close>] assms(2) by simp
qed

lemma roundHalfEven_of_int [simp]: "roundHalfEven (of_int m) = m"
  by (simp add: roundHalfEven_def)

lemma roundHalfEven_lower: "\<lfloor>t\<rfloor> \<le> roundHalfEven t"
  by (simp add: roundHalfEven_def Let_def)

lemma roundHalfEven_upper: "roundHalfEven t \<le> \<lfloor>t\<rfloor> + 1"
  by (simp add: roundHalfEven_def Let_def)

lemma roundHalfEven_mono:
  assumes "t \<le> u"
  shows "roundHalfEven t \<le> roundHalfEven u"
proof (cases "\<lfloor>t\<rfloor> = \<lfloor>u\<rfloor>")
  case True
  from assms have "t - of_int \<lfloor>t\<rfloor> \<le> u - of_int \<lfloor>t\<rfloor>" by simp
  with True show ?thesis
    by (auto simp: roundHalfEven_def Let_def)
next
  case False
  from assms have "\<lfloor>t\<rfloor> \<le> \<lfloor>u\<rfloor>" by (rule floor_mono)
  with False have "\<lfloor>t\<rfloor> + 1 \<le> \<lfloor>u\<rfloor>" by simp
  with roundHalfEven_upper [of t] roundHalfEven_lower [of u] show ?thesis by linarith
qed

lemma quantum_pos [simp]: "0 < quantum a"
  by (simp add: quantum_def)

lemma quantum_nonneg [simp]: "0 \<le> quantum a"
  using quantum_pos [of a] by (rule less_imp_le)

lemma quantum_nonzero [simp]: "quantum a \<noteq> 0"
  by (metis quantum_pos less_irrefl)

lemma roundHalfEven_0 [simp]: "roundHalfEven 0 = 0"
  using roundHalfEven_of_int [of 0] by simp

lemma powi_shift:
  "(2::real) powi (k + int n) = 2 ^ n * 2 powi k"
proof -
  have "(2::real) powi (k + int n) = 2 powi k * 2 powi (int n)"
    by (rule power_int_add) simp
  then show ?thesis by (simp add: mult.commute)
qed

lemma quantum_times_53: "2 ^ 53 * quantum a = 2 powi (max (ilog2 a) (- 1022) + 1)"
proof -
  have "max (ilog2 a) (- 1022) + 1 = (max (ilog2 a) (- 1022) - 52) + int 53" by simp
  then have "(2::real) powi (max (ilog2 a) (- 1022) + 1)
      = 2 ^ 53 * 2 powi (max (ilog2 a) (- 1022) - 52)"
    by (simp only: powi_shift)
  then show ?thesis by (simp only: quantum_def)
qed

lemma quantum_times_52: "2 ^ 52 * quantum a = 2 powi (max (ilog2 a) (- 1022))"
proof -
  have "max (ilog2 a) (- 1022) = (max (ilog2 a) (- 1022) - 52) + int 52" by simp
  then have "(2::real) powi (max (ilog2 a) (- 1022))
      = 2 ^ 52 * 2 powi (max (ilog2 a) (- 1022) - 52)"
    by (metis powi_shift)
  then show ?thesis by (simp only: quantum_def)
qed

lemma roundMagnitude_nonneg:
  assumes "0 \<le> a"
  shows "0 \<le> roundMagnitude a"
proof -
  from assms have "0 \<le> a / quantum a" by simp
  then have "roundHalfEven (of_int 0) \<le> roundHalfEven (a / quantum a)"
    by (intro roundHalfEven_mono) simp
  then show ?thesis by (simp add: roundMagnitude_def)
qed

lemma roundMagnitude_le:
  assumes "0 < a" and "a \<le> of_int m * quantum a"
  shows "roundMagnitude a \<le> of_int m * quantum a"
proof -
  from assms(2) have "a / quantum a \<le> of_int m" by (simp add: field_simps)
  then have "roundHalfEven (a / quantum a) \<le> roundHalfEven (of_int m)"
    by (rule roundHalfEven_mono)
  then have "real_of_int (roundHalfEven (a / quantum a)) \<le> of_int m" by simp
  then show ?thesis by (simp add: roundMagnitude_def)
qed

lemma roundMagnitude_ge:
  assumes "0 < a" and "of_int m * quantum a \<le> a"
  shows "of_int m * quantum a \<le> roundMagnitude a"
proof -
  from assms(2) have "of_int m \<le> a / quantum a" by (simp add: field_simps)
  then have "roundHalfEven (of_int m) \<le> roundHalfEven (a / quantum a)"
    by (rule roundHalfEven_mono)
  then have "of_int m \<le> real_of_int (roundHalfEven (a / quantum a))" by simp
  then show ?thesis by (simp add: roundMagnitude_def)
qed

lemma roundMagnitude_upper:
  assumes "0 < a"
  shows "roundMagnitude a \<le> 2 powi (max (ilog2 a) (- 1022) + 1)"
proof -
  have "a < 2 powi (ilog2 a + 1)" using assms by (rule ilog2_bounds)
  also have "\<dots> \<le> 2 powi (max (ilog2 a) (- 1022) + 1)"
    by (intro power_int_increasing) simp_all
  finally have "a \<le> of_int (2 ^ 53) * quantum a"
    using quantum_times_53 [of a] by simp
  from roundMagnitude_le [OF assms this] show ?thesis
    using quantum_times_53 [of a] by simp
qed


lemma roundMagnitude_lower:
  assumes "0 < a" and "- 1022 \<le> ilog2 a"
  shows "2 powi (ilog2 a) \<le> roundMagnitude a"
proof -
  from assms(2) have m: "max (ilog2 a) (- 1022) = ilog2 a" by simp
  have "2 powi (ilog2 a) \<le> a" using assms(1) by (rule ilog2_bounds)
  then have "of_int (2 ^ 52) * quantum a \<le> a"
    using quantum_times_52 [of a] m by simp
  from roundMagnitude_ge [OF assms(1) this] show ?thesis
    using quantum_times_52 [of a] m by simp
qed

lemma roundMagnitude_mono:
  assumes "0 < a" and "a \<le> b"
  shows "roundMagnitude a \<le> roundMagnitude b"
proof -
  from assms have b: "0 < b" by simp
  let ?ea = "max (ilog2 a) (- 1022)" and ?eb = "max (ilog2 b) (- 1022)"
  from ilog2_mono [OF assms] have le: "?ea \<le> ?eb" by simp
  show ?thesis
  proof (cases "?ea = ?eb")
    case True
    then have q: "quantum a = quantum b" by (simp add: quantum_def)
    from assms(2) have "a / quantum b \<le> b / quantum b"
      by (simp add: divide_right_mono)
    then have "roundHalfEven (a / quantum b) \<le> roundHalfEven (b / quantum b)"
      by (rule roundHalfEven_mono)
    then show ?thesis
      by (simp add: roundMagnitude_def q)
  next
    case False
    with le have lt: "?ea + 1 \<le> ?eb" by simp
    then have nb: "- 1022 \<le> ilog2 b" and eb: "?eb = ilog2 b" by simp_all
    have "roundMagnitude a \<le> 2 powi (?ea + 1)" using assms(1) by (rule roundMagnitude_upper)
    also have "\<dots> \<le> 2 powi ?eb" using lt by (intro power_int_increasing) simp_all
    also have "\<dots> \<le> roundMagnitude b"
      using roundMagnitude_lower [OF b nb] eb by simp
    finally show ?thesis .
  qed
qed


lemma ilog2_power [simp]: "ilog2 (2 powi k) = k"
proof (rule ilog2_unique)
  show "(0::real) < 2 powi k" by simp
  show "(2::real) powi k \<le> 2 powi k" by simp
  show "(2::real) powi k < 2 powi (k + 1)" by (intro power_int_strict_increasing) simp_all
qed

lemma roundMagnitude_power:
  assumes "- 1022 \<le> k"
  shows "roundMagnitude (2 powi k) = 2 powi k"
proof -
  from assms have q: "quantum (2 powi k) = 2 powi (k - 52)"
    by (simp add: quantum_def)
  have "k = (k - 52) + int 52" by simp
  then have e: "(2::real) powi k = 2 ^ 52 * 2 powi (k - 52)"
    by (metis powi_shift)
  have "(2::real) ^ 52 * 2 powi (k - 52) / 2 powi (k - 52) = of_int (2 ^ 52)"
    by simp
  then have "roundHalfEven (2 powi k / quantum (2 powi k)) = 2 ^ 52"
    unfolding q e [symmetric] by (simp only: roundHalfEven_of_int)
  then have "roundMagnitude (2 powi k) = of_int (2 ^ 52) * 2 powi (k - 52)"
    by (simp only: roundMagnitude_def q)
  with e show ?thesis by simp
qed


lemma binary64_zero [simp]: "binary64 0 = Fin 0"
  by (simp add: binary64_def)

lemma binary64_pos:
  assumes "0 < x"
  shows "binary64 x = (if 2 powi 1024 \<le> roundMagnitude x then PInf else Fin (roundMagnitude x))"
  using assms by (simp only: binary64_def Let_def) simp

lemma binary64_neg:
  assumes "x < 0"
  shows "binary64 x =
    (if 2 powi 1024 \<le> roundMagnitude (- x) then NInf else Fin (- roundMagnitude (- x)))"
  using assms by (simp only: binary64_def Let_def) simp

lemma binary64_not_NaN [simp]: "binary64 x \<noteq> NaN"
proof -
  consider "x = 0" | "0 < x" | "x < 0" by linarith
  then show ?thesis
    by cases (simp_all only: binary64_zero binary64_pos binary64_neg split: if_splits, simp_all)
qed


lemma binary64_nonneg_cases:
  assumes "0 \<le> x"
  obtains "binary64 x = PInf" | r where "binary64 x = Fin r" and "0 \<le> r"
proof (cases "x = 0")
  case True
  then have "binary64 x = Fin 0" by simp
  then show ?thesis using that(2) by simp
next
  case False
  with assms have pos: "0 < x" by simp
  show ?thesis
  proof (cases "2 powi 1024 \<le> roundMagnitude x")
    case True
    with pos have "binary64 x = PInf" by (simp only: binary64_pos) simp
    then show ?thesis by (rule that(1))
  next
    case False
    with pos have "binary64 x = Fin (roundMagnitude x)" by (simp only: binary64_pos) simp
    moreover have "0 \<le> roundMagnitude x" using assms by (rule roundMagnitude_nonneg)
    ultimately show ?thesis by (rule that(2))
  qed
qed

lemma binary64_nonpos_cases:
  assumes "x \<le> 0"
  obtains "binary64 x = NInf" | r where "binary64 x = Fin r" and "r \<le> 0"
proof (cases "x = 0")
  case True
  then have "binary64 x = Fin 0" by simp
  then show ?thesis using that(2) by simp
next
  case False
  with assms have neg: "x < 0" by simp
  then have nx: "0 \<le> - x" by simp
  show ?thesis
  proof (cases "2 powi 1024 \<le> roundMagnitude (- x)")
    case True
    with neg have "binary64 x = NInf" by (simp only: binary64_neg) simp
    then show ?thesis by (rule that(1))
  next
    case False
    with neg have "binary64 x = Fin (- roundMagnitude (- x))" by (simp only: binary64_neg) simp
    moreover have "- roundMagnitude (- x) \<le> 0" using roundMagnitude_nonneg [OF nx] by simp
    ultimately show ?thesis by (rule that(2))
  qed
qed

lemma binary64_mono:
  assumes "x \<le> y"
  shows "binary64 x \<le> binary64 y"
proof -
  consider "0 < x" | "y < 0" | "x \<le> 0" "0 \<le> y" by linarith
  then show ?thesis
  proof cases
    case 1
    with assms have y: "0 < y" by simp
    from roundMagnitude_mono [OF 1 assms] show ?thesis
      by (simp only: binary64_pos [OF 1] binary64_pos [OF y]) auto
  next
    case 2
    with assms have x: "x < 0" by simp
    from 2 assms have "0 < - y" "- y \<le> - x" by simp_all
    from roundMagnitude_mono [OF this] show ?thesis
      by (simp only: binary64_neg [OF 2] binary64_neg [OF x]) auto
  next
    case 3
    from 3(1) show ?thesis
    proof (rule binary64_nonpos_cases)
      assume "binary64 x = NInf"
      then show ?thesis by (cases "binary64 y") simp_all
    next
      fix r assume r: "binary64 x = Fin r" "r \<le> 0"
      from 3(2) show ?thesis
      proof (rule binary64_nonneg_cases)
        assume "binary64 y = PInf"
        with r show ?thesis by simp
      next
        fix s assume "binary64 y = Fin s" "0 \<le> s"
        with r show ?thesis by simp
      qed
    qed
  qed
qed

lemma binary64_of_nat:
  assumes "n \<le> 2 ^ 53"
  shows "binary64 (real n) = Fin (real n)"
proof (cases "n = 0")
  case True
  then show ?thesis by simp
next
  case False
  then have pos: "0 < real n" and one: "1 \<le> real n" by simp_all
  let ?k = "ilog2 (real n)"
  note b = ilog2_bounds [OF pos]
  have k0: "0 \<le> ?k"
  proof (rule ccontr)
    assume "\<not> 0 \<le> ?k"
    then have "?k + 1 \<le> 0" by simp
    then have "(2::real) powi (?k + 1) \<le> 2 powi 0" by (intro power_int_increasing) simp_all
    with b(2) one show False by simp
  qed
  have rm: "roundMagnitude (real n) = real n"
  proof (cases "real n = 2 ^ 53")
    case True
    have "roundMagnitude (2 powi 53) = 2 powi 53" by (rule roundMagnitude_power) simp
    with True show ?thesis by simp
  next
    case False
    with assms have lt: "real n < 2 ^ 53"
      by (metis of_nat_le_iff of_nat_numeral of_nat_power order_le_less)
    have k52: "?k \<le> 52"
    proof (rule ccontr)
      assume "\<not> ?k \<le> 52"
      then have "53 \<le> ?k" by simp
      then have "(2::real) powi 53 \<le> 2 powi ?k" by (intro power_int_increasing) simp_all
      with b(1) lt show False by simp
    qed
    from k0 have q: "quantum (real n) = 2 powi (?k - 52)" by (simp add: quantum_def)
    define j where "j = nat (52 - ?k)"
    from k52 have "(?k - 52) + int j = 0" by (simp add: j_def)
    then have "(2::real) powi 0 = 2 ^ j * 2 powi (?k - 52)" by (metis powi_shift)
    then have inv: "2 ^ j * quantum (real n) = 1" by (simp add: q)
    then have "real n / quantum (real n) = real n * 2 ^ j"
      by (simp add: field_simps)
    also have "\<dots> = of_int (int (n * 2 ^ j))" by simp
    finally have "roundHalfEven (real n / quantum (real n)) = int (n * 2 ^ j)"
      by (simp only: roundHalfEven_of_int)
    then have "roundMagnitude (real n) = real n * (2 ^ j * quantum (real n))"
      by (simp add: roundMagnitude_def)
    with inv show ?thesis by simp
  qed
  have "real n < 2 powi 1024"
  proof -
    from assms have "real n \<le> 2 ^ 53"
      by (metis of_nat_le_iff of_nat_numeral of_nat_power)
    also have "(2::real) ^ 53 < 2 powi 1024" by simp
    finally show ?thesis .
  qed
  with pos rm show ?thesis by (simp only: binary64_pos) simp
qed

lemma binary64_uminus: "binary64 (- x) = - binary64 x"
proof -
  consider "x = 0" | "0 < x" | "x < 0" by linarith
  then show ?thesis
  proof cases
    case 1 then show ?thesis by simp
  next
    case 2
    then have "- x < 0" by simp
    then show ?thesis by (simp only: binary64_neg binary64_pos [OF 2]) simp
  next
    case 3
    then have "0 < - x" by simp
    then show ?thesis by (simp only: binary64_pos binary64_neg [OF 3]) simp
  qed
qed

lemma binary64_of_int:
  assumes "\<bar>n\<bar> \<le> 2 ^ 53"
  shows "binary64 (of_int n) = Fin (of_int n)"
proof (cases "0 \<le> n")
  case True
  with assms have "nat n \<le> 2 ^ 53" by (simp add: nat_le_iff)
  from binary64_of_nat [OF this] True show ?thesis by simp
next
  case False
  with assms have "nat (- n) \<le> 2 ^ 53" by (simp add: nat_le_iff)
  from binary64_of_nat [OF this] False have "binary64 (of_int (- n)) = Fin (of_int (- n))"
    by simp
  then have "binary64 (- of_int n) = Fin (- of_int n)" by simp
  then show ?thesis by (simp only: binary64_uminus) (cases "binary64 (of_int n)"; simp)
qed

lemma binary64_numeral [simp]:
  "numeral n \<le> (9007199254740992 :: nat) \<Longrightarrow> binary64 (numeral n) = Fin (numeral n)"
  using binary64_of_nat [of "numeral n"] by simp

lemma binary64_one [simp]: "binary64 1 = Fin 1"
  using binary64_of_nat [of 1] by simp

lemma binary64_neg_numeral [simp]:
  "numeral n \<le> (9007199254740992 :: nat) \<Longrightarrow> binary64 (- numeral n) = Fin (- numeral n)"
  by (simp add: binary64_uminus)

section \<open>Properties of the simulator\<close>

lemmas simulate = calculateInvestmentGrowth_def initialTotals_def monthlyPoint_def Let_def

lemmas step_eval = growthStep_def Let_def minus_number_def

lemma number_mult_commute: "(x :: number) * y = y * x"
  by (cases x; cases y) (auto simp: mult.commute)

lemma growthStep_spec:
  "growthStep m t d = spec_purchase d (spec_payDividend d (spec_contribute m t))"
  by (simp add: growthStep_def spec_purchase_def spec_payDividend_def spec_contribute_def Let_def)

lemma monthlyPoint_spec: "monthlyPoint t d = spec_emit d t"
  by (simp add: monthlyPoint_def spec_emit_def number_mult_commute)

lemma growthMap_spec: "growthMap m t ds = spec_periods m t ds"
  by (induction ds arbitrary: t) (simp_all add: growthStep_spec monthlyPoint_spec Let_def)

text \<open>
  Claim C1. In every period of every monthly series the simulator first adds the
  contribution to the cash, then pays the dividend (only when the dividend per share and
  the shares held are both positive), then makes one floor-division purchase of whole
  shares. For the prices 10, 10, 20 with contribution 100 and initial balance 0 the last
  state has 25 shares, cash 0, portfolio value 500 and 300 contributed; for the single
  price 10 with a dividend of 1 per share and no shares held at payout, the dividends
  received are 0.
\<close>

theorem C1_step_order:
  "calculateInvestmentGrowth (d # ds) m b = Inr (spec_periods m (initialTotals d b) (d # ds))
   \<and> calculateInvestmentGrowth
        [\<lparr>StockDataPoint.date = a1, formattedDate = f1, value' = 10, dividend = 0, timestamp = s1\<rparr>,
         \<lparr>StockDataPoint.date = a2, formattedDate = f2, value' = 10, dividend = 0, timestamp = s2\<rparr>,
         \<lparr>StockDataPoint.date = a3, formattedDate = f3, value' = 20, dividend = 0, timestamp = s3\<rparr>]
        100 0
      = Inr [\<lparr>MonthlyDataPoint.date = a1, formattedDate = f1, stockPrice = 10, shares = Fin 10,
              totalInvested = Fin 100, portfolioValue = Fin 100, totalDividends = Fin 0,
              cashBalance = Fin 0\<rparr>,
             \<lparr>MonthlyDataPoint.date = a2, formattedDate = f2, stockPrice = 10, shares = Fin 20,
              totalInvested = Fin 200, portfolioValue = Fin 200, totalDividends = Fin 0,
              cashBalance = Fin 0\<rparr>,
             \<lparr>MonthlyDataPoint.date = a3, formattedDate = f3, stockPrice = 20, shares = Fin 25,
              totalInvested = Fin 300, portfolioValue = Fin 500, totalDividends = Fin 0,
              cashBalance = Fin 0\<rparr>]
   \<and> map_sum id (map MonthlyDataPoint.totalDividends)
        (calculateInvestmentGrowth
           [\<lparr>StockDataPoint.date = a1, formattedDate = f1, value' = 10, dividend = 1, timestamp = s1\<rparr>]
           m 0)
      = Inr [Fin 0]"
proof (intro conjI)
  show "calculateInvestmentGrowth (d # ds) m b = Inr (spec_periods m (initialTotals d b) (d # ds))"
    by (simp add: calculateInvestmentGrowth_def growthMap_spec)
next
  show "calculateInvestmentGrowth
        [\<lparr>StockDataPoint.date = a1, formattedDate = f1, value' = 10, dividend = 0, timestamp = s1\<rparr>,
         \<lparr>StockDataPoint.date = a2, formattedDate = f2, value' = 10, dividend = 0, timestamp = s2\<rparr>,
         \<lparr>StockDataPoint.date = a3, formattedDate = f3, value' = 20, dividend = 0, timestamp = s3\<rparr>]
        100 0
      = Inr [\<lparr>MonthlyDataPoint.date = a1, formattedDate = f1, stockPrice = 10, shares = Fin 10,
              totalInvested = Fin 100, portfolioValue = Fin 100, totalDividends = Fin 0,
              cashBalance = Fin 0\<rparr>,
             \<lparr>MonthlyDataPoint.date = a2, formattedDate = f2, stockPrice = 10, shares = Fin 20,
              totalInvested = Fin 200, portfolioValue = Fin 200, totalDividends = Fin 0,
              cashBalance = Fin 0\<rparr>,
             \<lparr>MonthlyDataPoint.date = a3, formattedDate = f3, stockPrice = 20, shares = Fin 25,
              totalInvested = Fin 300, portfolioValue = Fin 500, totalDividends = Fin 0,
              cashBalance = Fin 0\<rparr>]"
  proof -
    have 1: "growthStep 100
         \<lparr>totalShares = Fin 0, cashBalance = Fin 0, totalInvested = Fin 0,
            totalDividendsReceived = Fin 0\<rparr>
         \<lparr>StockDataPoint.date = a1, formattedDate = f1, value' = 10, dividend = 0,
            timestamp = s1\<rparr>
       = \<lparr>totalShares = Fin 10, cashBalance = Fin 0, totalInvested = Fin 100,
            totalDividendsReceived = Fin 0\<rparr>"
      by (simp add: step_eval)
    have 2: "growthStep 100
         \<lparr>totalShares = Fin 10, cashBalance = Fin 0, totalInvested = Fin 100,
            totalDividendsReceived = Fin 0\<rparr>
         \<lparr>StockDataPoint.date = a2, formattedDate = f2, value' = 10, dividend = 0,
            timestamp = s2\<rparr>
       = \<lparr>totalShares = Fin 20, cashBalance = Fin 0, totalInvested = Fin 200,
            totalDividendsReceived = Fin 0\<rparr>"
      by (simp add: step_eval)
    have 3: "growthStep 100
         \<lparr>totalShares = Fin 20, cashBalance = Fin 0, totalInvested = Fin 200,
            totalDividendsReceived = Fin 0\<rparr>
         \<lparr>StockDataPoint.date = a3, formattedDate = f3, value' = 20, dividend = 0,
            timestamp = s3\<rparr>
       = \<lparr>totalShares = Fin 25, cashBalance = Fin 0, totalInvested = Fin 300,
            totalDividendsReceived = Fin 0\<rparr>"
      by (simp add: step_eval)
    show ?thesis
      by (simp add: simulate 1 2 3)
  qed
next
  show "map_sum id (map MonthlyDataPoint.totalDividends)
        (calculateInvestmentGrowth
           [\<lparr>StockDataPoint.date = a1, formattedDate = f1, value' = 10, dividend = 1, timestamp = s1\<rparr>]
           m 0)
      = Inr [Fin 0]"
    by (simp add: calculateInvestmentGrowth_def initialTotals_def growthStep_def monthlyPoint_def
        Let_def minus_number_def)
qed

lemma exampleSeries_simulated:
  "calculateInvestmentGrowth exampleSeries 100 50 =
     Inr [\<lparr>MonthlyDataPoint.date = ''Jan 2020'', formattedDate = ''January 2020'',
           stockPrice = 30, shares = Fin 5, totalInvested = Fin 150,
           portfolioValue = Fin 150, totalDividends = Fin 0, cashBalance = Fin 0\<rparr>,
          \<lparr>MonthlyDataPoint.date = ''Feb 2020'', formattedDate = ''February 2020'',
           stockPrice = 45, shares = Fin 7, totalInvested = Fin 250,
           portfolioValue = Fin 335, totalDividends = Fin 10, cashBalance = Fin 20\<rparr>,
          \<lparr>MonthlyDataPoint.date = ''Mar 2020'', formattedDate = ''March 2020'',
           stockPrice = 40, shares = Fin 10, totalInvested = Fin 350,
           portfolioValue = Fin 400, totalDividends = Fin 10, cashBalance = Fin 0\<rparr>]"
proof -
  have 0: "initialTotals (stockPoint ''Jan 2020'' ''January 2020'' 30 0) 50
      = \<lparr>totalShares = Fin 1, cashBalance = Fin 20, totalInvested = Fin 50,
           totalDividendsReceived = Fin 0\<rparr>"
    by (simp add: initialTotals_def Let_def minus_number_def stockPoint_def)
       (simp add: binary64_eval)
  have 1: "growthStep 100
       \<lparr>totalShares = Fin 1, cashBalance = Fin 20, totalInvested = Fin 50,
          totalDividendsReceived = Fin 0\<rparr>
       (stockPoint ''Jan 2020'' ''January 2020'' 30 0)
     = \<lparr>totalShares = Fin 5, cashBalance = Fin 0, totalInvested = Fin 150,
          totalDividendsReceived = Fin 0\<rparr>"
    by (simp add: step_eval stockPoint_def)
  have 2: "growthStep 100
       \<lparr>totalShares = Fin 5, cashBalance = Fin 0, totalInvested = Fin 150,
          totalDividendsReceived = Fin 0\<rparr>
       (stockPoint ''Feb 2020'' ''February 2020'' 45 2)
     = \<lparr>totalShares = Fin 7, cashBalance = Fin 20, totalInvested = Fin 250,
          totalDividendsReceived = Fin 10\<rparr>"
    by (simp add: step_eval stockPoint_def) (simp add: binary64_eval)
  have 3: "growthStep 100
       \<lparr>totalShares = Fin 7, cashBalance = Fin 20, totalInvested = Fin 250,
          totalDividendsReceived = Fin 10\<rparr>
       (stockPoint ''Mar 2020'' ''March 2020'' 40 0)
     = \<lparr>totalShares = Fin 10, cashBalance = Fin 0, totalInvested = Fin 350,
          totalDividendsReceived = Fin 10\<rparr>"
    by (simp add: step_eval stockPoint_def)
  have "calculateInvestmentGrowth exampleSeries 100 50
      = Inr (growthMap 100 (initialTotals (stockPoint ''Jan 2020'' ''January 2020'' 30 0) 50)
               exampleSeries)"
    by (simp add: calculateInvestmentGrowth_def exampleSeries_def)
  also have "\<dots> = Inr [monthlyPoint
          \<lparr>totalShares = Fin 5, cashBalance = Fin 0, totalInvested = Fin 150,
             totalDividendsReceived = Fin 0\<rparr>
          (stockPoint ''Jan 2020'' ''January 2020'' 30 0),
        monthlyPoint
          \<lparr>totalShares = Fin 7, cashBalance = Fin 20, totalInvested = Fin 250,
             totalDividendsReceived = Fin 10\<rparr>
          (stockPoint ''Feb 2020'' ''February 2020'' 45 2),
        monthlyPoint
          \<lparr>totalShares = Fin 10, cashBalance = Fin 0, totalInvested = Fin 350,
             totalDividendsReceived = Fin 10\<rparr>
          (stockPoint ''Mar 2020'' ''March 2020'' 40 0)]"
    by (simp add: exampleSeries_def 0 1 2 3 Let_def)
  also have "\<dots> = Inr [\<lparr>MonthlyDataPoint.date = ''Jan 2020'', formattedDate = ''January 2020'',
           stockPrice = 30, shares = Fin 5, totalInvested = Fin 150,
           portfolioValue = Fin 150, totalDividends = Fin 0, cashBalance = Fin 0\<rparr>,
          \<lparr>MonthlyDataPoint.date = ''Feb 2020'', formattedDate = ''February 2020'',
           stockPrice = 45, shares = Fin 7, totalInvested = Fin 250,
           portfolioValue = Fin 335, totalDividends = Fin 10, cashBalance = Fin 20\<rparr>,
          \<lparr>MonthlyDataPoint.date = ''Mar 2020'', formattedDate = ''March 2020'',
           stockPrice = 40, shares = Fin 10, totalInvested = Fin 350,
           portfolioValue = Fin 400, totalDividends = Fin 10, cashBalance = Fin 0\<rparr>]"
    by (simp add: monthlyPoint_def stockPoint_def)
  finally show ?thesis .
qed

lemma length_growthMap: "length (growthMap m t ds) = length ds"
  by (induction ds arbitrary: t) (simp_all add: Let_def)

lemma growthMap_nth:
  "i < length ds \<Longrightarrow>
   growthMap m t ds ! i = monthlyPoint (foldl (growthStep m) t (take (Suc i) ds)) (ds ! i)"
proof (induction ds arbitrary: t i)
  case Nil
  then show ?case by simp
next
  case (Cons d ds)
  show ?case
  proof (cases i)
    case 0
    then show ?thesis by (simp add: Let_def)
  next
    case (Suc j)
    with Cons.prems have "j < length ds" by simp
    from Cons.IH [OF this] Suc show ?thesis by (simp add: Let_def)
  qed
qed

lemma foldl_take_Suc:
  "i < length ds \<Longrightarrow>
   foldl f t (take (Suc i) ds) = f (foldl f t (take i ds)) (ds ! i)"
  by (simp add: take_Suc_conv_app_nth)

lemma growthStep_totalInvested:
  "Totals.totalInvested (growthStep m t d) = Totals.totalInvested t + Fin m"
  by (simp add: growthStep_def Let_def)

lemma foldl_growthStep_totalInvested:
  "Totals.totalInvested t = Fin b \<Longrightarrow> n \<le> length ds \<Longrightarrow>
   Totals.totalInvested (foldl (growthStep m) t (take n ds)) = cumulativeSum b m n"
proof (induction n)
  case 0
  then show ?case by simp
next
  case (Suc n)
  then have "n < length ds" by simp
  with Suc show ?case
    by (simp add: foldl_take_Suc growthStep_totalInvested)
qed

lemma initialTotals_totalInvested:
  "Totals.totalInvested (initialTotals d b) = Fin b"
  by (simp add: initialTotals_def Let_def)

lemma growthMap_totalInvested:
  assumes "i < length (d # ds)"
  shows "MonthlyDataPoint.totalInvested (growthMap C (initialTotals d B) (d # ds) ! i)
           = cumulativeSum B C (Suc i)"
proof -
  from assms have "Suc i \<le> length (d # ds)" by simp
  from foldl_growthStep_totalInvested [OF initialTotals_totalInvested this]
  have "Totals.totalInvested (foldl (growthStep C) (initialTotals d B) (take (Suc i) (d # ds)))
          = cumulativeSum B C (Suc i)" .
  with assms show ?thesis
    by (simp only: growthMap_nth) (simp add: monthlyPoint_def)
qed

lemma cumulativeSum_exact:
  "(\<forall>j\<le>n. isDouble (B + C * real j)) \<Longrightarrow> cumulativeSum B C n = Fin (B + C * real n)"
proof (induction n)
  case 0
  then show ?case by simp
next
  case (Suc n)
  then have "cumulativeSum B C n = Fin (B + C * real n)" by simp
  moreover from Suc.prems have "isDouble (B + C * real (Suc n))" by blast
  ultimately show ?case
    by (simp add: isDouble_def algebra_simps)
qed

lemma cumulativeSum_whole:
  assumes "b + c * n \<le> 2 ^ 53"
  shows "cumulativeSum (real b) (real c) n = Fin (real b + real c * real n)"
proof (rule cumulativeSum_exact, intro allI impI)
  fix j assume "j \<le> n"
  then have "c * j \<le> c * n" by simp
  with assms have "b + c * j \<le> 2 ^ 53" by linarith
  from binary64_of_nat [OF this] show "isDouble (real b + real c * real j)"
    by (simp add: isDouble_def)
qed

lemma cumulativeSum_numeral:
  "cumulativeSum B C (numeral k) = cumulativeSum B C (pred_numeral k) + Fin C"
  by (simp add: numeral_eq_Suc)

lemma double_1_10: "double (1 / 10) = 3602879701896397 / 36028797018963968"
  by (simp add: double_def binary64_eval)

lemma cumulativeSum_tenth:
  "cumulativeSum 0 (3602879701896397 / 36028797018963968) 10
     = Fin (9007199254740991 / 9007199254740992)"
proof -
  let ?c = "3602879701896397 / 36028797018963968 :: real"
  have 1: "cumulativeSum 0 ?c 1 = Fin (3602879701896397 / 36028797018963968)"
    by simp (simp add: binary64_eval)
  have 2: "cumulativeSum 0 ?c 2 = Fin (3602879701896397 / 18014398509481984)"
    by (subst cumulativeSum_numeral) (simp add: 1 binary64_eval)
  have 3: "cumulativeSum 0 ?c 3 = Fin (1351079888211149 / 4503599627370496)"
    by (subst cumulativeSum_numeral) (simp add: 2 binary64_eval)
  have 4: "cumulativeSum 0 ?c 4 = Fin (3602879701896397 / 9007199254740992)"
    by (subst cumulativeSum_numeral) (simp add: 3 binary64_eval)
  have 5: "cumulativeSum 0 ?c 5 = Fin (1 / 2)"
    by (subst cumulativeSum_numeral) (simp add: 4 binary64_eval)
  have 6: "cumulativeSum 0 ?c 6 = Fin (5404319552844595 / 9007199254740992)"
    by (subst cumulativeSum_numeral) (simp add: 5 binary64_eval)
  have 7: "cumulativeSum 0 ?c 7 = Fin (3152519739159347 / 4503599627370496)"
    by (subst cumulativeSum_numeral) (simp add: 6 binary64_eval)
  have 8: "cumulativeSum 0 ?c 8 = Fin (7205759403792793 / 9007199254740992)"
    by (subst cumulativeSum_numeral) (simp add: 7 binary64_eval)
  have 9: "cumulativeSum 0 ?c 9 = Fin (2026619832316723 / 2251799813685248)"
    by (subst cumulativeSum_numeral) (simp add: 8 binary64_eval)
  have 10: "cumulativeSum 0 ?c 10 = Fin (9007199254740991 / 9007199254740992)"
    by (subst cumulativeSum_numeral) (simp add: 9 binary64_eval)
  from 10 show ?thesis .
qed

lemma calculateInvestmentGrowth_Cons:
  "calculateInvestmentGrowth (d # ds) C B = Inr (growthMap C (initialTotals d B) (d # ds))"
  by (simp add: calculateInvestmentGrowth_def)

text \<open>
  Claim C3 says that the entry of index \<open>i\<close> has a total invested of \<open>B + C * (i + 1)\<close>.
  The code accumulates the total by one rounded addition per period. With no initial
  balance and a contribution of 0.1, the tenth entry of a series of ten periods has a total
  of \<open>1 - 2 ^ -53\<close> (printed 0.9999999999999999), whereas \<open>B + C * k\<close> is 1 when it is
  computed in binary64, and above 1 as a real number.
\<close>

theorem C3_counterexample:
  "\<exists>xs. calculateInvestmentGrowth (replicate 10 (stockPoint ''Jan 2020'' ''January 2020'' 1 0))
           (double (1 / 10)) 0 = Inr xs
      \<and> length xs = 10
      \<and> MonthlyDataPoint.totalInvested (last xs) = Fin (9007199254740991 / 9007199254740992)
      \<and> Fin 0 + Fin (double (1 / 10)) * Fin 10 = Fin 1
      \<and> 1 < 0 + double (1 / 10) * 10"
proof -
  let ?p = "stockPoint ''Jan 2020'' ''January 2020'' 1 0"
  let ?c = "3602879701896397 / 36028797018963968 :: real"
  define xs where "xs = growthMap ?c (initialTotals ?p 0) (?p # replicate 9 ?p)"
  have rep: "replicate 10 ?p = ?p # replicate 9 ?p"
    by (simp add: numeral_eq_Suc)
  have res: "calculateInvestmentGrowth (replicate 10 ?p) (double (1 / 10)) 0 = Inr xs"
    by (simp only: rep calculateInvestmentGrowth_Cons xs_def double_1_10)
  have len: "length xs = 10"
    by (simp only: xs_def length_growthMap) simp
  then have "xs \<noteq> []" by auto
  then have "last xs = xs ! 9"
    by (simp add: last_conv_nth len)
  moreover have "MonthlyDataPoint.totalInvested (xs ! 9) = cumulativeSum 0 ?c (Suc 9)"
    unfolding xs_def by (rule growthMap_totalInvested) simp
  ultimately have lst:
    "MonthlyDataPoint.totalInvested (last xs) = Fin (9007199254740991 / 9007199254740992)"
    by (simp add: cumulativeSum_tenth)
  have js: "Fin 0 + Fin (double (1 / 10)) * Fin 10 = Fin 1"
    by (simp add: double_1_10) (simp add: binary64_eval)
  have "1 < 0 + double (1 / 10) * 10"
    by (simp add: double_1_10)
  with res len lst js show ?thesis by blast
qed

text \<open>
  Claim C3, amended. For a non-empty monthly series, contribution \<open>C\<close> and initial balance
  \<open>B\<close>, the entry of index \<open>i\<close> has as its total invested the sum that results from adding
  \<open>C\<close> to \<open>B\<close> one period at a time, \<open>i + 1\<close> times, every addition rounded to binary64;
  the last entry has the sum of as many additions as the series has periods. That sum is
  \<open>B + C * (i + 1)\<close> when every partial sum \<open>B + C * j\<close> with \<open>j \<le> i + 1\<close> is a binary64
  value, and so whenever \<open>B\<close> and \<open>C\<close> are whole numbers that are not negative with
  \<open>B + C * k \<le> 2 ^ 53\<close> for the \<open>k\<close> periods of the series.
\<close>

theorem C3_total_contributed:
  assumes "data \<noteq> []"
  shows "\<exists>xs. calculateInvestmentGrowth data C B = Inr xs \<and> length xs = length data
           \<and> (\<forall>i<length data.
                 MonthlyDataPoint.totalInvested (xs ! i) = cumulativeSum B C (i + 1))
           \<and> MonthlyDataPoint.totalInvested (last xs) = cumulativeSum B C (length data)
           \<and> (\<forall>i<length data. (\<forall>j\<le>i + 1. isDouble (B + C * real j)) \<longrightarrow>
                 MonthlyDataPoint.totalInvested (xs ! i) = Fin (B + C * (real i + 1)))
           \<and> (\<forall>b c. B = real b \<and> C = real c \<and> b + c * length data \<le> 2 ^ 53 \<longrightarrow>
                 (\<forall>i<length data.
                    MonthlyDataPoint.totalInvested (xs ! i) = Fin (B + C * (real i + 1)))
                 \<and> MonthlyDataPoint.totalInvested (last xs) = Fin (B + C * real (length data)))"
proof -
  from assms obtain d ds where data: "data = d # ds" by (cases data) auto
  define xs where "xs = growthMap C (initialTotals d B) data"
  have res: "calculateInvestmentGrowth data C B = Inr xs"
    by (simp add: calculateInvestmentGrowth_def data xs_def)
  have len: "length xs = length data"
    by (simp add: xs_def length_growthMap)
  have nth: "MonthlyDataPoint.totalInvested (xs ! i) = cumulativeSum B C (i + 1)"
    if "i < length data" for i
    using that growthMap_totalInvested [of i d ds C B] by (simp add: xs_def data)
  have "xs \<noteq> []" using len assms by auto
  then have "last xs = xs ! (length data - 1)"
    by (simp add: last_conv_nth len)
  moreover have "length data - 1 < length data" using assms by simp
  ultimately have "MonthlyDataPoint.totalInvested (last xs)
      = cumulativeSum B C (length data - 1 + 1)"
    using nth [of "length data - 1"] by (simp only:)
  moreover have "length data - 1 + 1 = length data"
    using assms by (simp add: Suc_leI)
  ultimately have lst: "MonthlyDataPoint.totalInvested (last xs) = cumulativeSum B C (length data)"
    by (simp only:)
  have exact: "MonthlyDataPoint.totalInvested (xs ! i) = Fin (B + C * (real i + 1))"
    if "i < length data" and "\<forall>j\<le>i + 1. isDouble (B + C * real j)" for i
    using nth [OF that(1)] cumulativeSum_exact [OF that(2)] by (simp add: add.commute)
  have whole: "(\<forall>i<length data.
                  MonthlyDataPoint.totalInvested (xs ! i) = Fin (B + C * (real i + 1)))
               \<and> MonthlyDataPoint.totalInvested (last xs) = Fin (B + C * real (length data))"
    if B: "B = real b" and C: "C = real c" and le: "b + c * length data \<le> 2 ^ 53" for b c
  proof (intro conjI allI impI)
    fix i assume i: "i < length data"
    then have "i + 1 \<le> length data" by simp
    then have "c * (i + 1) \<le> c * length data" by (rule mult_le_mono2)
    with le have "b + c * (i + 1) \<le> 2 ^ 53" by linarith
    from cumulativeSum_whole [OF this] nth [OF i]
    show "MonthlyDataPoint.totalInvested (xs ! i) = Fin (B + C * (real i + 1))"
      by (simp add: B C add.commute)
  next
    from cumulativeSum_whole [OF le] lst
    show "MonthlyDataPoint.totalInvested (last xs) = Fin (B + C * real (length data))"
      by (simp add: B C)
  qed
  from res len nth lst exact whole show ?thesis by blast
qed

theorem C3_total_contributed_witness:
  "\<exists>xs. calculateInvestmentGrowth exampleSeries 100 50 = Inr xs
      \<and> length xs = 3
      \<and> MonthlyDataPoint.totalInvested (xs ! 0) = Fin 150
      \<and> MonthlyDataPoint.totalInvested (xs ! 1) = Fin 250
      \<and> MonthlyDataPoint.totalInvested (xs ! 2) = Fin 350
      \<and> MonthlyDataPoint.totalInvested (last xs) = Fin 350"
proof -
  have ne: "exampleSeries \<noteq> []" and len: "length exampleSeries = 3"
    by (simp_all add: exampleSeries_def)
  from C3_total_contributed [OF ne, of 100 50] obtain xs where
    res: "calculateInvestmentGrowth exampleSeries 100 50 = Inr xs" and
    l: "length xs = length exampleSeries" and
    whole: "\<forall>b c. (50 :: real) = real b \<and> (100 :: real) = real c
               \<and> b + c * length exampleSeries \<le> 2 ^ 53 \<longrightarrow>
             (\<forall>i<length exampleSeries.
                MonthlyDataPoint.totalInvested (xs ! i) = Fin (50 + 100 * (real i + 1)))
             \<and> MonthlyDataPoint.totalInvested (last xs)
                 = Fin (50 + 100 * real (length exampleSeries))"
    by blast
  from whole [rule_format, of 50 100]
  have nth: "\<forall>i<3. MonthlyDataPoint.totalInvested (xs ! i) = Fin (50 + 100 * (real i + 1))"
    and lst: "MonthlyDataPoint.totalInvested (last xs) = Fin 350"
    by (simp_all add: len)
  from nth [rule_format, of 0] nth [rule_format, of 1] nth [rule_format, of 2] lst res l
  show ?thesis by (simp add: len)
qed
















lemma double_1_100: "double (1 / 100) = 5764607523034235 / 576460752303423488"
  by (simp add: double_def binary64_eval)







text \<open>
  Claim C4 says that the simulator fails with an \<open>InvalidInputError\<close> on an empty series,
  on a price that is not positive, and on a negative contribution or initial balance. The
  code has no such check: each of the three series below has one of these defects and the
  simulator returns a state series for it.
\<close>

theorem C4_counterexample:
  "calculateInvestmentGrowth [stockPoint ''Jan 2020'' ''January 2020'' 10 0] (- 5) 0
     = Inr [\<lparr>MonthlyDataPoint.date = ''Jan 2020'', formattedDate = ''January 2020'',
             stockPrice = 10, shares = Fin 0, totalInvested = Fin (- 5),
             portfolioValue = Fin (- 5), totalDividends = Fin 0, cashBalance = Fin (- 5)\<rparr>]
   \<and> calculateInvestmentGrowth [stockPoint ''Jan 2020'' ''January 2020'' 10 0] 5 (- 20)
     = Inr [\<lparr>MonthlyDataPoint.date = ''Jan 2020'', formattedDate = ''January 2020'',
             stockPrice = 10, shares = Fin 0, totalInvested = Fin (- 15),
             portfolioValue = Fin (- 15), totalDividends = Fin 0, cashBalance = Fin (- 15)\<rparr>]
   \<and> calculateInvestmentGrowth [stockPoint ''Jan 2020'' ''January 2020'' (- 10) 0] 5 0
     = Inr [\<lparr>MonthlyDataPoint.date = ''Jan 2020'', formattedDate = ''January 2020'',
             stockPrice = - 10, shares = Fin 0, totalInvested = Fin 5,
             portfolioValue = Fin 5, totalDividends = Fin 0, cashBalance = Fin 5\<rparr>]"
  by (simp add: calculateInvestmentGrowth_def initialTotals_def growthStep_def monthlyPoint_def
        Let_def minus_number_def stockPoint_def)
     (simp add: binary64_eval)

text \<open>
  Claim C4, amended. The simulator validates nothing. An empty series ends in the
  \<open>TypeError\<close> of reading \<open>data[0]\<close>; every non-empty series yields a state series of
  the same length, whatever the prices, the contribution and the initial balance are.
\<close>

theorem C4_no_validation:
  "calculateInvestmentGrowth [] C B = Inl TypeError
   \<and> (data \<noteq> [] \<longrightarrow>
        (\<exists>xs. calculateInvestmentGrowth data C B = Inr xs \<and> length xs = length data))"
  by (cases data) (simp_all add: calculateInvestmentGrowth_def length_growthMap Let_def)

theorem C4_no_validation_witness:
  "calculateInvestmentGrowth [] (- 5) (- 20) = Inl TypeError
   \<and> (\<exists>xs. calculateInvestmentGrowth [stockPoint ''Jan 2020'' ''January 2020'' (- 10) 0] (- 5) (- 20)
              = Inr xs
        \<and> length xs = length [stockPoint ''Jan 2020'' ''January 2020'' (- 10) 0])"
  using C4_no_validation [of "- 5" "- 20" "[stockPoint ''Jan 2020'' ''January 2020'' (- 10) 0]"]
  by simp

section \<open>Properties of the interpolator\<close>

lemma exampleMonthly_simulated:
  "calculateInvestmentGrowth
     [stockPoint ''Jan 2020'' ''January 2020'' 10 0, stockPoint ''Feb 2020'' ''February 2020'' 10 0]
     105 0 = Inr exampleMonthly"
proof -
  have 1: "growthStep 105
       \<lparr>totalShares = Fin 0, cashBalance = Fin 0, totalInvested = Fin 0,
          totalDividendsReceived = Fin 0\<rparr>
       (stockPoint ''Jan 2020'' ''January 2020'' 10 0)
     = \<lparr>totalShares = Fin 10, cashBalance = Fin 5, totalInvested = Fin 105,
          totalDividendsReceived = Fin 0\<rparr>"
    by (simp add: step_eval stockPoint_def) (simp add: binary64_eval)
  have 2: "growthStep 105
       \<lparr>totalShares = Fin 10, cashBalance = Fin 5, totalInvested = Fin 105,
          totalDividendsReceived = Fin 0\<rparr>
       (stockPoint ''Feb 2020'' ''February 2020'' 10 0)
     = \<lparr>totalShares = Fin 21, cashBalance = Fin 0, totalInvested = Fin 210,
          totalDividendsReceived = Fin 0\<rparr>"
    by (simp add: step_eval stockPoint_def)
  have "calculateInvestmentGrowth
     [stockPoint ''Jan 2020'' ''January 2020'' 10 0, stockPoint ''Feb 2020'' ''February 2020'' 10 0]
     105 0
     = Inr [monthlyPoint
              \<lparr>totalShares = Fin 10, cashBalance = Fin 5, totalInvested = Fin 105,
                 totalDividendsReceived = Fin 0\<rparr>
              (stockPoint ''Jan 2020'' ''January 2020'' 10 0),
            monthlyPoint
              \<lparr>totalShares = Fin 21, cashBalance = Fin 0, totalInvested = Fin 210,
                 totalDividendsReceived = Fin 0\<rparr>
              (stockPoint ''Feb 2020'' ''February 2020'' 10 0)]"
    by (simp add: calculateInvestmentGrowth_def initialTotals_def 1 2 Let_def)
  also have "\<dots> = Inr exampleMonthly"
    by (simp add: monthlyPoint_def stockPoint_def exampleMonthly_def)
  finally show ?thesis .
qed

lemma matchingLoop_range:
  "matchingLoop toTime pd ms i idx = idx
   \<or> (i \<le> matchingLoop toTime pd ms i idx \<and> matchingLoop toTime pd ms i idx < i + length ms)"
proof (induction ms arbitrary: i idx)
  case Nil
  then show ?case by simp
next
  case (Cons m ms)
  from Cons.IH [of "Suc i" i] show ?case by auto
qed

lemma matchingLoop_less_length:
  assumes "ms \<noteq> []"
  shows "matchingLoop toTime pd ms 0 0 < length ms"
  using matchingLoop_range [of toTime pd ms 0 0] assms by auto

lemma mapThrow_Inr:
  assumes "\<forall>x\<in>set xs. f x = Inr (g x)"
  shows "mapThrow f xs = Inr (map g xs)"
  using assms by (induction xs) simp_all

lemma interpolatePoint_Inr:
  assumes "ms \<noteq> []"
  shows "interpolatePoint toTime ms p =
     Inr (chartPointFrom
            (ms ! matchingLoop toTime (toTime (StockDataPoint.formattedDate p)) ms 0 0) p)"
  using matchingLoop_less_length [OF assms, of toTime "toTime (StockDataPoint.formattedDate p)"]
  by (simp add: interpolatePoint_def chartPointFrom_def Let_def)

lemma interpolateChartData_Inr:
  assumes "ms \<noteq> []"
  shows "interpolateChartData toTime ps ms =
     Inr (map (\<lambda>p. chartPointFrom
            (ms ! matchingLoop toTime (toTime (StockDataPoint.formattedDate p)) ms 0 0) p) ps)"
  unfolding interpolateChartData_def
  by (rule mapThrow_Inr) (simp add: interpolatePoint_Inr [OF assms])

text \<open>
  Claim C7 says that a denser point whose key equals the key of the matched monthly state
  copies that state's shares and total dividends too. The point below has the key of the
  first monthly state, which holds 10 shares; the emitted chart point has neither field.
\<close>

theorem C7_counterexample:
  "StockDataPoint.date (stockPoint ''Jan 2020'' ''January 2020'' 12 0)
     = MonthlyDataPoint.date (exampleMonthly ! 0)
   \<and> MonthlyDataPoint.shares (exampleMonthly ! 0) = Fin 10
   \<and> MonthlyDataPoint.totalDividends (exampleMonthly ! 0) = Fin 0
   \<and> interpolateChartData exampleTime [stockPoint ''Jan 2020'' ''January 2020'' 12 0] exampleMonthly
     = Inr [\<lparr>ChartDataPoint.date = ''Jan 2020'', formattedDate = ''January 2020'',
             portfolioValue = Fin 105, totalInvested = Fin 105, shares = None,
             totalDividends = None, stockPrice = 12\<rparr>]"
  by (simp add: interpolateChartData_def interpolatePoint_def exampleMonthly_def exampleTime_def
        stockPoint_def date_le_def Let_def)

text \<open>
  Claim C7, amended. For a denser point whose key equals the key of the monthly state
  \<open>m\<close> the scan matched, the emitted chart point copies the portfolio value and the
  total invested of \<open>m\<close> unchanged, takes its labels and its price from the denser point,
  and has no shares and no total dividends.
\<close>

theorem C7_monthly_boundary:
  assumes "i < length periodStockData" and "monthlyData \<noteq> []"
    and "m = monthlyData ! matchingLoop toTime
               (toTime (StockDataPoint.formattedDate (periodStockData ! i))) monthlyData 0 0"
    and "StockDataPoint.date (periodStockData ! i) = MonthlyDataPoint.date m"
  shows "\<exists>out. interpolateChartData toTime periodStockData monthlyData = Inr out
           \<and> length out = length periodStockData
           \<and> out ! i =
               \<lparr>ChartDataPoint.date = StockDataPoint.date (periodStockData ! i),
                formattedDate = StockDataPoint.formattedDate (periodStockData ! i),
                portfolioValue = MonthlyDataPoint.portfolioValue m,
                totalInvested = MonthlyDataPoint.totalInvested m,
                shares = None,
                totalDividends = None,
                stockPrice = value' (periodStockData ! i)\<rparr>"
  using assms by (simp add: interpolateChartData_Inr chartPointFrom_def)

theorem C7_monthly_boundary_witness:
  "\<exists>out. interpolateChartData exampleTime
            [stockPoint ''Jan 15, 2020'' ''January 15, 2020'' 11 0,
             stockPoint ''Feb 2020'' ''February 2020'' 12 0] exampleMonthly = Inr out
         \<and> length out = 2
         \<and> out ! 1 =
             \<lparr>ChartDataPoint.date = ''Feb 2020'', formattedDate = ''February 2020'',
              portfolioValue = Fin 210, totalInvested = Fin 210, shares = None,
              totalDividends = None, stockPrice = 12\<rparr>"
  using C7_monthly_boundary [of 1
      "[stockPoint ''Jan 15, 2020'' ''January 15, 2020'' 11 0,
        stockPoint ''Feb 2020'' ''February 2020'' 12 0]"
      exampleMonthly "exampleMonthly ! 1" exampleTime]
  by (simp add: exampleMonthly_def exampleTime_def stockPoint_def date_le_def numeral_2_eq_2)

lemma matchingLoop_latest:
  assumes "k < length ms"
    and "\<forall>j\<le>k. date_le (toTime (MonthlyDataPoint.formattedDate (ms ! j))) pd"
    and "Suc k < length ms \<longrightarrow>
           \<not> date_le (toTime (MonthlyDataPoint.formattedDate (ms ! Suc k))) pd"
  shows "matchingLoop toTime pd ms i idx = i + k"
  using assms
proof (induction ms arbitrary: k i idx)
  case Nil
  then show ?case by simp
next
  case (Cons m ms)
  from Cons.prems(2) have m: "date_le (toTime (MonthlyDataPoint.formattedDate m)) pd"
    by force
  show ?case
  proof (cases k)
    case 0
    show ?thesis
    proof (cases ms)
      case Nil
      with m 0 show ?thesis by simp
    next
      case (Cons m' ms')
      with Cons.prems(3) 0
      have "\<not> date_le (toTime (MonthlyDataPoint.formattedDate m')) pd" by simp
      with m 0 Cons show ?thesis by simp
    qed
  next
    case (Suc k')
    with Cons.prems(1) have 1: "k' < length ms" by simp
    have 2: "\<forall>j\<le>k'. date_le (toTime (MonthlyDataPoint.formattedDate (ms ! j))) pd"
    proof (intro allI impI)
      fix j assume "j \<le> k'"
      then have "Suc j \<le> k" using Suc by simp
      with Cons.prems(2) have "date_le (toTime (MonthlyDataPoint.formattedDate ((m # ms) ! Suc j))) pd"
        by blast
      then show "date_le (toTime (MonthlyDataPoint.formattedDate (ms ! j))) pd" by simp
    qed
    have 3: "Suc k' < length ms \<longrightarrow>
           \<not> date_le (toTime (MonthlyDataPoint.formattedDate (ms ! Suc k'))) pd"
      using Cons.prems(3) Suc by simp
    from Cons.IH [OF 1 2 3, of "Suc i" i] m Suc show ?thesis by simp
  qed
qed

text \<open>
  Claim C8. Let the monthly dates be valid and ascending, and let \<open>m\<close> be the latest
  monthly state whose date is not after the date of the denser point \<open>p\<close>. If the key of
  \<open>p\<close> differs from the key of \<open>m\<close>, the emitted chart point has the portfolio value
  \<open>m.shares * p.price + m.cashBalance\<close> and the total invested of \<open>m\<close>, and it has no
  shares and no total dividends.
\<close>

theorem C8_intra_month:
  assumes i: "i < length periodStockData"
    and t: "toTime (StockDataPoint.formattedDate (periodStockData ! i)) = Some t"
    and ts: "map (\<lambda>m. toTime (MonthlyDataPoint.formattedDate m)) monthlyData = map Some ts"
    and sorted: "sorted ts"
    and k: "k < length monthlyData" "ts ! k \<le> t"
    and latest: "\<forall>j. k < j \<and> j < length monthlyData \<longrightarrow> t < ts ! j"
    and key: "StockDataPoint.date (periodStockData ! i) \<noteq> MonthlyDataPoint.date (monthlyData ! k)"
  shows "\<exists>out. interpolateChartData toTime periodStockData monthlyData = Inr out
           \<and> length out = length periodStockData
           \<and> out ! i =
               \<lparr>ChartDataPoint.date = StockDataPoint.date (periodStockData ! i),
                formattedDate = StockDataPoint.formattedDate (periodStockData ! i),
                portfolioValue =
                  MonthlyDataPoint.shares (monthlyData ! k) * Fin (value' (periodStockData ! i))
                    + MonthlyDataPoint.cashBalance (monthlyData ! k),
                totalInvested = MonthlyDataPoint.totalInvested (monthlyData ! k),
                shares = None,
                totalDividends = None,
                stockPrice = value' (periodStockData ! i)\<rparr>"
proof -
  let ?pd = "toTime (StockDataPoint.formattedDate (periodStockData ! i))"
  from ts have len: "length ts = length monthlyData"
    by (metis length_map)
  have time: "toTime (MonthlyDataPoint.formattedDate (monthlyData ! j)) = Some (ts ! j)"
    if "j < length monthlyData" for j
  proof -
    from that have "map (\<lambda>m. toTime (MonthlyDataPoint.formattedDate m)) monthlyData ! j
        = toTime (MonthlyDataPoint.formattedDate (monthlyData ! j))"
      by simp
    moreover from that len have "map Some ts ! j = Some (ts ! j)" by simp
    ultimately show ?thesis using ts by simp
  qed
  have before: "\<forall>j\<le>k. date_le (toTime (MonthlyDataPoint.formattedDate (monthlyData ! j))) ?pd"
  proof (intro allI impI)
    fix j assume j: "j \<le> k"
    with k(1) len have "ts ! j \<le> ts ! k"
      using sorted by (simp add: sorted_nth_mono)
    with k(2) have "ts ! j \<le> t" by simp
    moreover from j k(1) have "j < length monthlyData" by simp
    ultimately show "date_le (toTime (MonthlyDataPoint.formattedDate (monthlyData ! j))) ?pd"
      by (simp add: time t date_le_def)
  qed
  have after: "Suc k < length monthlyData \<longrightarrow>
      \<not> date_le (toTime (MonthlyDataPoint.formattedDate (monthlyData ! Suc k))) ?pd"
  proof
    assume s: "Suc k < length monthlyData"
    with latest have "t < ts ! Suc k" by simp
    with s show "\<not> date_le (toTime (MonthlyDataPoint.formattedDate (monthlyData ! Suc k))) ?pd"
      by (simp add: time t date_le_def)
  qed
  from matchingLoop_latest [OF k(1) before after, of 0 0]
  have idx: "matchingLoop toTime ?pd monthlyData 0 0 = k" by simp
  from k(1) have "monthlyData \<noteq> []" by auto
  from interpolateChartData_Inr [OF this] i idx key show ?thesis
    by (simp add: chartPointFrom_def)
qed

theorem C8_intra_month_witness:
  "\<exists>out. interpolateChartData exampleTime
            [stockPoint ''Jan 15, 2020'' ''January 15, 2020'' 11 0,
             stockPoint ''Feb 10, 2020'' ''February 10, 2020'' 12 0] exampleMonthly = Inr out
         \<and> length out = 2
         \<and> out ! 0 =
             \<lparr>ChartDataPoint.date = ''Jan 15, 2020'', formattedDate = ''January 15, 2020'',
              portfolioValue = Fin 115, totalInvested = Fin 105, shares = None,
              totalDividends = None, stockPrice = 11\<rparr>"
  using C8_intra_month [of 0
      "[stockPoint ''Jan 15, 2020'' ''January 15, 2020'' 11 0,
        stockPoint ''Feb 10, 2020'' ''February 10, 2020'' 12 0]"
      exampleTime 14 exampleMonthly "[0, 31]" 0]
  by (simp add: exampleMonthly_def exampleTime_def stockPoint_def numeral_2_eq_2)

text \<open>
  Claim C9 says that the interpolator raises an error for a denser point dated before the
  first monthly state. The point below is dated 12 days before it, and the interpolator
  returns a chart point valued with the holdings of the first monthly state.
\<close>

theorem C9_counterexample:
  "exampleTime ''December 20, 2019'' = Some (- 12)
   \<and> exampleTime (MonthlyDataPoint.formattedDate (exampleMonthly ! 0)) = Some 0
   \<and> interpolateChartData exampleTime
        [stockPoint ''Dec 20, 2019'' ''December 20, 2019'' 8 0] exampleMonthly
     = Inr [\<lparr>ChartDataPoint.date = ''Dec 20, 2019'', formattedDate = ''December 20, 2019'',
             portfolioValue = Fin 85, totalInvested = Fin 105, shares = None,
             totalDividends = None, stockPrice = 8\<rparr>]"
  by (simp add: interpolateChartData_def interpolatePoint_def exampleMonthly_def exampleTime_def
        stockPoint_def date_le_def Let_def)

text \<open>
  Claim C9, amended. For a denser point dated before the first monthly state of a
  non-empty monthly series the interpolator does not fail: the scan keeps the index 0, and
  the chart point is built from the first monthly state.
\<close>

theorem C9_before_first_boundary:
  assumes i: "i < length periodStockData"
    and ne: "monthlyData \<noteq> []"
    and t: "toTime (StockDataPoint.formattedDate (periodStockData ! i)) = Some t"
    and t0: "toTime (MonthlyDataPoint.formattedDate (monthlyData ! 0)) = Some t0"
    and before: "t < t0"
  shows "\<exists>out. interpolateChartData toTime periodStockData monthlyData = Inr out
           \<and> length out = length periodStockData
           \<and> out ! i =
               \<lparr>ChartDataPoint.date = StockDataPoint.date (periodStockData ! i),
                formattedDate = StockDataPoint.formattedDate (periodStockData ! i),
                portfolioValue =
                  (if StockDataPoint.date (periodStockData ! i)
                        = MonthlyDataPoint.date (monthlyData ! 0)
                   then MonthlyDataPoint.portfolioValue (monthlyData ! 0)
                   else MonthlyDataPoint.shares (monthlyData ! 0)
                          * Fin (value' (periodStockData ! i))
                        + MonthlyDataPoint.cashBalance (monthlyData ! 0)),
                totalInvested = MonthlyDataPoint.totalInvested (monthlyData ! 0),
                shares = None,
                totalDividends = None,
                stockPrice = value' (periodStockData ! i)\<rparr>"
proof -
  from ne obtain m ms where ms: "monthlyData = m # ms" by (cases monthlyData) auto
  from t t0 before
  have "matchingLoop toTime (toTime (StockDataPoint.formattedDate (periodStockData ! i)))
          monthlyData 0 0 = 0"
    by (simp add: ms date_le_def)
  with interpolateChartData_Inr [OF ne] i show ?thesis
    by (simp add: chartPointFrom_def)
qed

theorem C9_before_first_boundary_witness:
  "\<exists>out. interpolateChartData exampleTime
            [stockPoint ''Dec 20, 2019'' ''December 20, 2019'' 8 0] exampleMonthly = Inr out
         \<and> length out = 1
         \<and> out ! 0 =
             \<lparr>ChartDataPoint.date = ''Dec 20, 2019'', formattedDate = ''December 20, 2019'',
              portfolioValue = Fin 85, totalInvested = Fin 105, shares = None,
              totalDividends = None, stockPrice = 8\<rparr>"
  using C9_before_first_boundary [of 0
      "[stockPoint ''Dec 20, 2019'' ''December 20, 2019'' 8 0]" exampleMonthly exampleTime
      "- 12" 0]
  by (simp add: exampleMonthly_def exampleTime_def stockPoint_def)

section \<open>Properties of the frame pacer\<close>

lemma frameStep_finite_ge_1:
  assumes "frameStep n cf = Fin s"
  shows "1 \<le> s"
  using assms
  by (cases "Math_floor (Fin (real n) / cf)")
     (auto simp: frameStep_def Math_max_def split: if_splits)

lemma frameStep_small:
  assumes "0 < n" and "Fin (real n) \<le> cf"
  shows "frameStep n cf = Fin 1"
proof (cases cf)
  case (Fin c)
  with assms have c: "real n \<le> c" "0 < c" by simp_all
  then have "0 \<le> real n / c" and "real n / c \<le> 1" by simp_all
  from binary64_mono [OF this(1)] binary64_mono [OF this(2)]
  obtain r where r: "binary64 (real n / c) = Fin r" and "0 \<le> r" "r \<le> 1"
    by (cases "binary64 (real n / c)") simp_all
  then have "\<lfloor>r\<rfloor> \<le> 1" by linarith
  then have "\<not> 1 < real_of_int \<lfloor>r\<rfloor>" by linarith
  with c r show ?thesis
    unfolding frameStep_def Math_max_def Fin
    by (simp del: of_int_less_iff one_less_floor)
next
  case PInf
  then show ?thesis by (simp add: frameStep_def Math_max_def)
next
  case NInf
  with assms show ?thesis by simp
next
  case NaN
  with assms show ?thesis by simp
qed

lemma frameStep_multiple:
  assumes "0 < c" and "0 < q" and "c * q \<le> 2 ^ 53"
  shows "frameStep (c * q) (Fin (real c)) = Fin (real q)"
proof -
  from assms(1) have "q \<le> c * q" by simp
  with assms(3) have "q \<le> 2 ^ 53" by linarith
  from binary64_of_nat [OF this] have b: "binary64 (real q) = Fin (real q)" .
  from assms(1) have "real (c * q) / real c = real q" by simp
  with b have "Fin (real (c * q)) / Fin (real c) = Fin (real q)"
    using assms(1) by (simp del: of_nat_mult)
  then show ?thesis
    using assms(2) by (simp add: frameStep_def Math_max_def del: of_nat_mult)
qed

lemma count_step:
  fixes k i n :: nat
  assumes "0 < k" "i < n"
  shows "(n - i + k - 1) div k = Suc ((n - (i + k) + k - 1) div k)"
proof (cases "i + k \<le> n")
  case True
  define a where "a = n - (i + k) + k - 1"
  from True assms have "n - i + k - 1 = a + k" unfolding a_def by linarith
  moreover have "(a + k) div k = Suc (a div k)"
    using assms(1) by simp
  ultimately show ?thesis unfolding a_def by simp
next
  case False
  with assms have a: "n - (i + k) + k - 1 = k - 1" by simp
  have "(n - i + k - 1) div k = 1"
    using assms False by (intro div_nat_eqI) auto
  with a assms(1) show ?thesis by simp
qed

lemma growthLoop_map:
  assumes "frameStep (length chartData) cf = Fin (real k)" and "0 < k"
  shows "growthLoop chartData cf i =
     map (\<lambda>j. growthFrame chartData (i + j * k)) [0 ..< (length chartData - i + k - 1) div k]"
  using assms
proof (induction chartData cf i rule: growthLoop.induct)
  case (1 chartData cf i)
  show ?case
  proof (cases "i < length chartData")
    case True
    from "1.IH" [OF True "1.prems"(1) "1.prems"]
    have IH: "growthLoop chartData cf (i + k) =
       map (\<lambda>j. growthFrame chartData (i + k + j * k))
         [0 ..< (length chartData - (i + k) + k - 1) div k]"
      by simp
    have "growthLoop chartData cf i = growthFrame chartData i # growthLoop chartData cf (i + k)"
      using True "1.prems"(1) by (subst growthLoop.simps) simp
    also have "\<dots> = map (\<lambda>j. growthFrame chartData (i + j * k))
         [0 ..< Suc ((length chartData - (i + k) + k - 1) div k)]"
      unfolding IH by (simp only: map_upt_Suc) (simp add: add.assoc add.commute [of k])
    finally show ?thesis
      using count_step [OF "1.prems"(2) True] by simp
  next
    case False
    then have "(length chartData - i + k - 1) div k = 0"
      using "1.prems"(2) by simp
    with False show ?thesis by (subst growthLoop.simps) simp
  qed
qed

lemma growthLoop_infinite_step:
  assumes "frameStep (length chartData) cf = PInf \<or> frameStep (length chartData) cf = NaN"
  shows "growthLoop chartData cf i = (if i < length chartData then [growthFrame chartData i] else [])"
  using assms by (subst growthLoop.simps) auto

lemma growthFrames_finite_step:
  assumes "frameStep (length chartData) (chartFrames chartDuration) = Fin (real k)" and "0 < k"
  shows "growthFrames chartDuration chartData =
     map (\<lambda>j. growthFrame chartData (j * k)) [0 ..< (length chartData + k - 1) div k]"
  unfolding growthFrames_def using growthLoop_map [OF assms, of 0] by simp

lemma growthLoop_not_final:
  "f \<in> set (growthLoop chartData cf i) \<Longrightarrow> \<not> isFinal f"
proof (induction chartData cf i rule: growthLoop.induct)
  case (1 chartData cf i)
  show ?case
  proof (cases "i < length chartData")
    case True
    with "1.prems" have "f = growthFrame chartData i
        \<or> (\<exists>s. frameStep (length chartData) cf = Fin s
               \<and> f \<in> set (growthLoop chartData cf (i + nat \<lfloor>s\<rfloor>)))"
      by (subst (asm) growthLoop.simps) (auto split: number.splits)
    then show ?thesis
    proof
      assume "f = growthFrame chartData i"
      then show ?thesis by (simp add: growthFrame_def)
    next
      assume "\<exists>s. frameStep (length chartData) cf = Fin s
               \<and> f \<in> set (growthLoop chartData cf (i + nat \<lfloor>s\<rfloor>))"
      then obtain s where "frameStep (length chartData) cf = Fin s"
        "f \<in> set (growthLoop chartData cf (i + nat \<lfloor>s\<rfloor>))" by blast
      with "1.IH" [OF True] show ?thesis by blast
    qed
  next
    case False
    with "1.prems" show ?thesis by (subst (asm) growthLoop.simps) simp
  qed
qed

lemma growthFrames_not_final: "filter isFinal (growthFrames chartDuration chartData) = []"
  by (auto simp: growthFrames_def filter_empty_conv dest: growthLoop_not_final)

lemma endingLoop_replicate:
  "nat (e - int i) = k \<Longrightarrow> length frames + k \<le> 2 ^ 32 - 1 \<Longrightarrow>
   endingLoop f (Fin (of_int e)) i frames = Inr (frames @ replicate k f)"
proof (induction k arbitrary: i frames)
  case 0
  then have "\<not> int i < e" by simp
  then show ?case by (subst endingLoop.simps) simp
next
  case (Suc k)
  from Suc.prems(1) have lt: "int i < e" by linarith
  from Suc.prems(1) have "nat (e - int (Suc i)) = k" by simp
  moreover from Suc.prems(2) have "length (frames @ [f]) + k \<le> 2 ^ 32 - 1" by simp
  ultimately have "endingLoop f (Fin (of_int e)) (Suc i) (frames @ [f])
      = Inr ((frames @ [f]) @ replicate k f)"
    by (rule Suc.IH)
  moreover from Suc.prems(2) have "length frames < 2 ^ 32 - 1" by simp
  ultimately show ?case
    using lt by (subst endingLoop.simps) (simp add: replicate_app_Cons_same)
qed

lemma videoFrames_nonempty:
  assumes "chartData \<noteq> []" and "endingFrames endingDuration = Fin (of_int e)"
    and "length (growthFrames chartDuration chartData) + nat e \<le> 2 ^ 32 - 1"
  shows "videoFrames chartDuration endingDuration chartData
    = Inr (growthFrames chartDuration chartData @ replicate (nat e) (finalFrame chartData))"
  using assms(1) endingLoop_replicate [OF _ assms(3), of e 0 "finalFrame chartData"]
  by (simp add: videoFrames_def freezeFrames_def assms(2))

lemma growth_count_small:
  assumes "chartData \<noteq> []" and "Fin (real (length chartData)) \<le> chartFrames chartDuration"
  shows "length (growthFrames chartDuration chartData) = length chartData"
proof -
  from assms(1) have "0 < length chartData" by simp
  from frameStep_small [OF this assms(2)]
  have "frameStep (length chartData) (chartFrames chartDuration) = Fin (real 1)" by simp
  from growthFrames_finite_step [OF this] show ?thesis by simp
qed

lemma growth_count_multiple:
  assumes "chartData \<noteq> []" and "length chartData \<le> 2 ^ 53"
    and "chartFrames chartDuration = Fin (real c)" and "0 < c" and "c dvd length chartData"
  shows "length (growthFrames chartDuration chartData) = c"
proof -
  let ?n = "length chartData"
  from assms(1) have n: "0 < ?n" by simp
  from assms(5) obtain q where q: "?n = c * q" by (auto elim: dvdE)
  with n have q0: "0 < q" by (cases q) auto
  from frameStep_multiple [OF assms(4) q0] assms(2,3) q
  have "frameStep ?n (chartFrames chartDuration) = Fin (real q)" by simp
  from growthFrames_finite_step [OF this q0]
  have cnt: "length (growthFrames chartDuration chartData) = (?n + q - 1) div q" by simp
  define a where "a = q - 1"
  from q0 have a: "a < q" by (simp add: a_def)
  from q q0 have "?n + q - 1 = a + c * q" by (simp add: a_def)
  moreover from a have "(a + c * q) div q = c" by simp
  ultimately have "(?n + q - 1) div q = c" by simp
  with cnt show ?thesis by simp
qed

lemma chartFrames_20: "chartFrames 20 = Fin 600"
  by (simp add: chartFrames_def fps_def)

lemma endingFrames_3: "endingFrames 3 = Fin 90"
  by (simp add: endingFrames_def fps_def)

lemma growth_count_ceiling:
  fixes s n :: nat
  assumes "0 < s" "0 < n"
  shows "(n + s - 1) div s = Suc ((n - 1) div s)"
proof -
  from assms have "n + s - 1 = (n - 1) + s" by simp
  moreover have "((n - 1) + s) div s = Suc ((n - 1) div s)" using assms(1) by simp
  ultimately show ?thesis by simp
qed

lemma growthFrames_first:
  assumes "chartData \<noteq> []"
  shows "growthFrames chartDuration chartData \<noteq> []"
    and "hd (growthFrames chartDuration chartData) = growthFrame chartData 0"
  using assms unfolding growthFrames_def by (subst growthLoop.simps; simp)+

lemma isFinal_finalFrame: "isFinal (finalFrame chartData)"
  by (simp add: finalFrame_def)

lemma filter_isFinal_video:
  "filter isFinal (growthFrames chartDuration chartData @ replicate n (finalFrame chartData))
     = replicate n (finalFrame chartData)"
  by (simp add: growthFrames_not_final isFinal_finalFrame)

lemma double_3_10: "double (3 / 10) = 5404319552844595 / 18014398509481984"
  by (simp add: double_def binary64_eval)

text \<open>
  Claim C5 says that the frames number \<open>floor (D_chart * R) + floor (D_end * R)\<close> whatever
  the length of the series is, 690 for the durations 20 and 3 at 30 frames per second. A
  series of 3 points gives 93 frames.
\<close>

theorem C5_counterexample:
  "chartFrames 20 = Fin 600 \<and> endingFrames 3 = Fin 90
   \<and> length (chartSeries 3) = 3
   \<and> map_sum id length (videoFrames 20 3 (chartSeries 3)) = Inr 93"
proof -
  have ne: "chartSeries 3 \<noteq> []" and len: "length (chartSeries 3) = 3"
    by (simp_all add: chartSeries_def)
  have "Fin (real (length (chartSeries 3))) \<le> chartFrames 20"
    by (simp add: len chartFrames_20)
  from growth_count_small [OF ne this]
  have g: "length (growthFrames 20 (chartSeries 3)) = 3" by (simp add: len)
  have "endingFrames 3 = Fin (of_int 90)" by (simp add: endingFrames_3)
  from videoFrames_nonempty [OF ne this, of 20]
  have "map_sum id length (videoFrames 20 3 (chartSeries 3)) = Inr 93"
    by (simp add: g)
  with len show ?thesis
    by (simp add: chartFrames_20 endingFrames_3)
qed

text \<open>
  Claim C5, amended. The frame rate is the constant 30. Let \<open>F\<close> be the frame budget
  \<open>Math.floor(chartDuration * 30)\<close> and \<open>E\<close> the number \<open>Math.floor(endingDuration * 30)\<close>,
  both as the code computes them: the product is rounded to binary64 before the floor is
  taken (for the duration 0.3 the product is 9 and \<open>E = 9\<close>, although the exact product of
  the binary64 value of 0.3 and 30 is below 9). For a non-empty chart series of length
  \<open>N < 2 ^ 32\<close>:

  \<^item> no growth frame is final, and when \<open>E\<close> is finite and the growth frames and
    \<open>max 0 E\<close> further frames fit into an array (at most \<open>2 ^ 32 - 1\<close> elements), the frames
    are the growth frames followed by exactly \<open>max 0 E\<close> copies of the final frame;
  \<^item> the number of growth frames depends on \<open>N\<close>: it is \<open>N\<close> when \<open>N \<le> F\<close>, and it is \<open>F\<close>
    when \<open>F\<close> is positive and divides \<open>N\<close>, and then the frames number \<open>F + max 0 E\<close> in
    all, \<open>max 0 E\<close> of them final;
  \<^item> with the durations 20 and 3, \<open>F = 600\<close> and \<open>E = 90\<close>; for an ending duration of 3 and
    any chart duration exactly 90 frames are final when all frames fit into an array; and
    there are 690 frames in all when 600 divides \<open>N\<close>.
\<close>

theorem C5_frame_count:
  assumes "chartData \<noteq> []" and "length chartData < 2 ^ 32"
  shows "filter isFinal (growthFrames chartDuration chartData) = []
     \<and> (\<forall>e. endingFrames endingDuration = Fin (of_int e)
            \<and> length (growthFrames chartDuration chartData) + nat e \<le> 2 ^ 32 - 1 \<longrightarrow>
          videoFrames chartDuration endingDuration chartData
            = Inr (growthFrames chartDuration chartData
                     @ replicate (nat e) (finalFrame chartData))
          \<and> isFinal (finalFrame chartData))
     \<and> (Fin (real (length chartData)) \<le> chartFrames chartDuration \<longrightarrow>
          length (growthFrames chartDuration chartData) = length chartData)
     \<and> (\<forall>c. chartFrames chartDuration = Fin (real c) \<and> 0 < c \<and> c dvd length chartData \<longrightarrow>
          length (growthFrames chartDuration chartData) = c
          \<and> (\<forall>e. endingFrames endingDuration = Fin (of_int e) \<and> c + nat e \<le> 2 ^ 32 - 1 \<longrightarrow>
                (\<exists>frames. videoFrames chartDuration endingDuration chartData = Inr frames
                   \<and> length frames = c + nat e
                   \<and> length (filter isFinal frames) = nat e)))
     \<and> chartFrames 20 = Fin 600 \<and> endingFrames 3 = Fin 90
     \<and> endingFrames (double (3 / 10)) = Fin 9 \<and> \<lfloor>double (3 / 10) * 30\<rfloor> = 8
     \<and> (length (growthFrames chartDuration chartData) + 90 \<le> 2 ^ 32 - 1 \<longrightarrow>
          (\<exists>frames. videoFrames chartDuration 3 chartData = Inr frames
             \<and> length (filter isFinal frames) = 90))
     \<and> (600 dvd length chartData \<longrightarrow>
          (\<exists>frames. videoFrames 20 3 chartData = Inr frames
             \<and> length frames = 690 \<and> length (filter isFinal frames) = 90))"
proof -
  let ?g = "growthFrames chartDuration chartData"
  have n53: "length chartData \<le> 2 ^ 53"
    using assms(2) by simp
  have g: "filter isFinal ?g = []"
    by (rule growthFrames_not_final)
  have v: "videoFrames chartDuration endingDuration chartData
            = Inr (?g @ replicate (nat e) (finalFrame chartData))
          \<and> isFinal (finalFrame chartData)"
    if "endingFrames endingDuration = Fin (of_int e)" and "length ?g + nat e \<le> 2 ^ 32 - 1" for e
    using videoFrames_nonempty [OF assms(1) that] isFinal_finalFrame by blast
  have small: "Fin (real (length chartData)) \<le> chartFrames chartDuration \<longrightarrow>
          length ?g = length chartData"
    using growth_count_small [OF assms(1), of chartDuration] by blast
  have mult: "length ?g = c
          \<and> (\<forall>e. endingFrames endingDuration = Fin (of_int e) \<and> c + nat e \<le> 2 ^ 32 - 1 \<longrightarrow>
                (\<exists>frames. videoFrames chartDuration endingDuration chartData = Inr frames
                   \<and> length frames = c + nat e
                   \<and> length (filter isFinal frames) = nat e))"
    if c: "chartFrames chartDuration = Fin (real c)" "0 < c" "c dvd length chartData" for c
  proof (intro conjI allI impI)
    show len: "length ?g = c"
      using assms(1) n53 c by (rule growth_count_multiple)
    fix e
    assume e: "endingFrames endingDuration = Fin (of_int e) \<and> c + nat e \<le> 2 ^ 32 - 1"
    then have "length ?g + nat e \<le> 2 ^ 32 - 1" by (simp only: len)
    from videoFrames_nonempty [OF assms(1) conjunct1 [OF e] this]
    show "\<exists>frames. videoFrames chartDuration endingDuration chartData = Inr frames
                   \<and> length frames = c + nat e
                   \<and> length (filter isFinal frames) = nat e"
      by (simp add: len filter_isFinal_video del: filter_append filter_replicate)
  qed
  have e9: "endingFrames (double (3 / 10)) = Fin 9"
    by (simp add: endingFrames_def fps_def double_3_10) (simp add: binary64_eval)
  have f8: "\<lfloor>double (3 / 10) * 30\<rfloor> = 8"
    by (simp add: double_3_10)
  have ninety: "\<exists>frames. videoFrames chartDuration 3 chartData = Inr frames
             \<and> length (filter isFinal frames) = 90"
    if "length ?g + 90 \<le> 2 ^ 32 - 1"
  proof -
    have "endingFrames 3 = Fin (of_int 90)" by (simp add: endingFrames_3)
    moreover from that have "length ?g + nat 90 \<le> 2 ^ 32 - 1" by simp
    ultimately have "videoFrames chartDuration 3 chartData
        = Inr (?g @ replicate (nat 90) (finalFrame chartData))"
      by (rule videoFrames_nonempty [OF assms(1)])
    then show ?thesis
      by (simp add: filter_isFinal_video del: filter_append filter_replicate)
  qed
  have dflt: "\<exists>frames. videoFrames 20 3 chartData = Inr frames
             \<and> length frames = 690 \<and> length (filter isFinal frames) = 90"
    if "600 dvd length chartData"
  proof -
    have "chartFrames 20 = Fin (real 600)" by (simp add: chartFrames_20)
    from growth_count_multiple [OF assms(1) n53 this _ that]
    have len: "length (growthFrames 20 chartData) = 600" by simp
    have "endingFrames 3 = Fin (of_int 90)" by (simp add: endingFrames_3)
    moreover have "length (growthFrames 20 chartData) + nat 90 \<le> 2 ^ 32 - 1"
      by (simp add: len)
    ultimately have "videoFrames 20 3 chartData
        = Inr (growthFrames 20 chartData @ replicate (nat 90) (finalFrame chartData))"
      by (rule videoFrames_nonempty [OF assms(1)])
    then show ?thesis
      by (simp add: len filter_isFinal_video del: filter_append filter_replicate)
  qed
  from g v small mult e9 f8 ninety dflt chartFrames_20 endingFrames_3
  show ?thesis by blast
qed

theorem C5_frame_count_witness:
  "(\<exists>frames. videoFrames 20 3 (chartSeries 3) = Inr frames
       \<and> length frames = 93 \<and> length (filter isFinal frames) = 90)
   \<and> (\<exists>frames. videoFrames 20 3 (chartSeries 1200) = Inr frames
       \<and> length frames = 690 \<and> length (filter isFinal frames) = 90)
   \<and> (\<exists>frames. videoFrames 20 (- 1) (chartSeries 600) = Inr frames
       \<and> length frames = 600 \<and> length (filter isFinal frames) = 0)"
proof (intro conjI)
  have ne: "chartSeries 3 \<noteq> []" and len: "length (chartSeries 3) = 3"
    by (simp_all add: chartSeries_def)
  have lt: "length (chartSeries 3) < 2 ^ 32" by (simp add: len)
  note c5 = C5_frame_count [OF ne lt, where chartDuration = 20 and endingDuration = 3]
  from c5 have g: "filter isFinal (growthFrames 20 (chartSeries 3)) = []" by blast
  from c5 have "Fin (real (length (chartSeries 3))) \<le> chartFrames 20 \<longrightarrow>
      length (growthFrames 20 (chartSeries 3)) = length (chartSeries 3)"
    by blast
  then have l: "length (growthFrames 20 (chartSeries 3)) = 3"
    by (simp add: len chartFrames_20)
  from c5 have "\<forall>e. endingFrames 3 = Fin (of_int e)
            \<and> length (growthFrames 20 (chartSeries 3)) + nat e \<le> 2 ^ 32 - 1 \<longrightarrow>
          videoFrames 20 3 (chartSeries 3)
            = Inr (growthFrames 20 (chartSeries 3)
                     @ replicate (nat e) (finalFrame (chartSeries 3)))
          \<and> isFinal (finalFrame (chartSeries 3))"
    by blast
  from this [rule_format, of 90]
  have "videoFrames 20 3 (chartSeries 3)
            = Inr (growthFrames 20 (chartSeries 3) @ replicate 90 (finalFrame (chartSeries 3)))
        \<and> isFinal (finalFrame (chartSeries 3))"
    by (simp add: endingFrames_3 l)
  with g l show "\<exists>frames. videoFrames 20 3 (chartSeries 3) = Inr frames
       \<and> length frames = 93 \<and> length (filter isFinal frames) = 90"
    by simp
next
  have ne: "chartSeries 1200 \<noteq> []" and len: "length (chartSeries 1200) = 1200"
    by (simp_all add: chartSeries_def)
  have lt: "length (chartSeries 1200) < 2 ^ 32" by (simp add: len)
  from C5_frame_count [OF ne lt, where chartDuration = 20 and endingDuration = 3]
  have "600 dvd length (chartSeries 1200) \<longrightarrow>
          (\<exists>frames. videoFrames 20 3 (chartSeries 1200) = Inr frames
             \<and> length frames = 690 \<and> length (filter isFinal frames) = 90)"
    by blast
  then show "\<exists>frames. videoFrames 20 3 (chartSeries 1200) = Inr frames
       \<and> length frames = 690 \<and> length (filter isFinal frames) = 90"
    by (simp add: len)
next
  have ne: "chartSeries 600 \<noteq> []" and len: "length (chartSeries 600) = 600"
    by (simp_all add: chartSeries_def)
  have lt: "length (chartSeries 600) < 2 ^ 32" by (simp add: len)
  have ef: "endingFrames (- 1) = Fin (of_int (- 30))"
    by (simp add: endingFrames_def fps_def)
  from C5_frame_count [OF ne lt, where chartDuration = 20 and endingDuration = "- 1"]
  have "\<forall>c. chartFrames 20 = Fin (real c) \<and> 0 < c \<and> c dvd length (chartSeries 600) \<longrightarrow>
          length (growthFrames 20 (chartSeries 600)) = c
          \<and> (\<forall>e. endingFrames (- 1) = Fin (of_int e) \<and> c + nat e \<le> 2 ^ 32 - 1 \<longrightarrow>
                (\<exists>frames. videoFrames 20 (- 1) (chartSeries 600) = Inr frames
                   \<and> length frames = c + nat e
                   \<and> length (filter isFinal frames) = nat e))"
    by blast
  from this [rule_format, of 600]
  have "\<forall>e. endingFrames (- 1) = Fin (of_int e) \<and> 600 + nat e \<le> (2 :: nat) ^ 32 - 1 \<longrightarrow>
                (\<exists>frames. videoFrames 20 (- 1) (chartSeries 600) = Inr frames
                   \<and> length frames = 600 + nat e
                   \<and> length (filter isFinal frames) = nat e)"
    by (simp add: chartFrames_20 len)
  from this [rule_format, of "- 30"] ef
  show "\<exists>frames. videoFrames 20 (- 1) (chartSeries 600) = Inr frames
       \<and> length frames = 600 \<and> length (filter isFinal frames) = 0"
    by simp
qed

text \<open>
  Claim C6 says that the growth frames never outnumber \<open>chartFrames\<close>. For a series of
  1199 points and a chart duration of 20 seconds the budget is 600 frames, the step is
  \<open>max 1 (floor (1199 / 600)) = 1\<close>, and the loop emits 1199 growth frames.
\<close>

theorem C6_growth_exceeds_budget:
  "chartFrames 20 = Fin 600
   \<and> frameStep 1199 (Fin 600) = Fin 1
   \<and> length (chartSeries 1199) = 1199
   \<and> length (growthFrames 20 (chartSeries 1199)) = 1199"
proof -
  have cf: "chartFrames 20 = Fin 600" by (rule chartFrames_20)
  have len: "length (chartSeries 1199) = 1199" by (simp add: chartSeries_def)
  have q: "Math_floor (Fin 1199 / Fin 600) = Fin 1"
    by simp (simp add: binary64_eval)
  have st: "frameStep 1199 (Fin 600) = Fin (real 1)"
    using q by (simp add: frameStep_def Math_max_def)
  then have "frameStep (length (chartSeries 1199)) (chartFrames 20) = Fin (real 1)"
    by (simp only: cf len)
  from growthFrames_finite_step [OF this]
  have "length (growthFrames 20 (chartSeries 1199)) = 1199" by (simp add: len)
  with cf len st show ?thesis by simp
qed

lemma chartFrames_tenth: "chartFrames (double (1 / 10)) = Fin 3"
  by (simp add: chartFrames_def fps_def double_1_10) (simp add: binary64_eval)

lemma endingFrames_hundredth: "endingFrames (double (1 / 100)) = Fin 0"
  by (simp add: endingFrames_def fps_def double_1_100) (simp add: binary64_eval)

lemma frameStep_8_3: "frameStep 8 (Fin 3) = Fin 2"
proof -
  have "Math_floor (Fin 8 / Fin 3) = Fin 2"
    by simp (simp add: binary64_eval)
  then show ?thesis by (simp add: frameStep_def Math_max_def)
qed

lemma growthFrames_eight:
  "growthFrames (double (1 / 10)) (chartSeries 8)
     = [growthFrame (chartSeries 8) 0, growthFrame (chartSeries 8) 2,
        growthFrame (chartSeries 8) 4, growthFrame (chartSeries 8) 6]"
proof -
  have len: "length (chartSeries 8) = 8" by (simp add: chartSeries_def)
  have "frameStep (length (chartSeries 8)) (chartFrames (double (1 / 10))) = Fin (real 2)"
    by (simp add: len chartFrames_tenth frameStep_8_3)
  from growthFrames_finite_step [OF this]
  have "growthFrames (double (1 / 10)) (chartSeries 8)
      = map (\<lambda>j. growthFrame (chartSeries 8) (j * 2)) [0 ..< 4]"
    by (simp add: len)
  also have "[0 ..< 4] = [0, 1, 2, 3 :: nat]"
    by (simp add: upt_rec)
  finally show ?thesis by simp
qed

text \<open>
  Claim C10 says that the final data point is always shown in the freeze frames. There
  are freeze frames only when \<open>Math.floor(endingDuration * 30)\<close> is at least 1. For a
  series of 8 points, a chart duration of 0.1 and an ending duration of 0.01 the budget
  is 3 frames, the step is 2, and the video consists of the 4 growth frames with the
  first 1, 3, 5 and 7 points: no frame is final, and none shows the last point.
\<close>

theorem C10_counterexample:
  "\<exists>frames. videoFrames (double (1 / 10)) (double (1 / 100)) (chartSeries 8) = Inr frames
      \<and> map points frames
          = [take 1 (chartSeries 8), take 3 (chartSeries 8), take 5 (chartSeries 8),
             take 7 (chartSeries 8)]
      \<and> map isFinal frames = [False, False, False, False]
      \<and> length (chartSeries 8) = 8
      \<and> last (chartSeries 8) \<notin> set (take 7 (chartSeries 8))"
proof -
  have ne: "chartSeries 8 \<noteq> []" and len: "length (chartSeries 8) = 8"
    by (simp_all add: chartSeries_def)
  have "endingFrames (double (1 / 100)) = Fin (of_int 0)"
    by (simp add: endingFrames_hundredth)
  from videoFrames_nonempty [OF ne this, of "double (1 / 10)"]
  have v: "videoFrames (double (1 / 10)) (double (1 / 100)) (chartSeries 8)
      = Inr (growthFrames (double (1 / 10)) (chartSeries 8))"
    by (simp add: growthFrames_eight)
  have "last (chartSeries 8) \<notin> set (take 7 (chartSeries 8))"
    by (auto simp: chartSeries_def take_map last_map)
  with v len show ?thesis
    by (simp add: growthFrames_eight growthFrame_def)
qed

text \<open>
  Claim C10, amended. For a non-empty chart series of length \<open>N\<close> the first growth frame
  carries the first point alone. When the frame step
  \<open>Math.max(1, Math.floor(N / chartFrames))\<close> is the finite number \<open>s\<close>, the last growth
  frame carries the points up to the index \<open>s * ((N - 1) div s)\<close>, every growth frame
  carries a prefix that is no longer, and the \<open>(N - 1) mod s\<close> points after it, at most
  \<open>s - 1\<close>, are in no growth frame. With \<open>E = Math.floor(endingDuration * 30)\<close>: when
  \<open>E \<ge> 1\<close> and the growth frames and \<open>E\<close> further frames fit into an array (at most
  \<open>2 ^ 32 - 1\<close> elements), the growth frames are followed by final frames, there is at
  least one, and every one of them carries the whole series, the last point included;
  when \<open>E \<le> 0\<close> the video has no final frame, it consists of the growth frames alone.
\<close>

theorem C10_frame_contents:
  assumes "chartData \<noteq> []"
  shows "growthFrames chartDuration chartData \<noteq> []
     \<and> points (hd (growthFrames chartDuration chartData)) = [chartData ! 0]
     \<and> (\<forall>s. frameStep (length chartData) (chartFrames chartDuration) = Fin (real s) \<longrightarrow>
          points (last (growthFrames chartDuration chartData))
            = take (s * ((length chartData - 1) div s) + 1) chartData
          \<and> (\<forall>f\<in>set (growthFrames chartDuration chartData).
                \<exists>m\<le>s * ((length chartData - 1) div s) + 1. points f = take m chartData)
          \<and> length chartData - (s * ((length chartData - 1) div s) + 1)
              = (length chartData - 1) mod s
          \<and> (length chartData - 1) mod s \<le> s - 1)
     \<and> (\<forall>e. endingFrames endingDuration = Fin (of_int e) \<and> 1 \<le> e
            \<and> length (growthFrames chartDuration chartData) + nat e \<le> 2 ^ 32 - 1 \<longrightarrow>
          (\<exists>final. videoFrames chartDuration endingDuration chartData
                      = Inr (growthFrames chartDuration chartData @ final)
             \<and> final \<noteq> []
             \<and> (\<forall>f\<in>set final.
                   points f = chartData \<and> isFinal f \<and> last chartData \<in> set (points f))))
     \<and> (\<forall>e. endingFrames endingDuration = Fin (of_int e) \<and> e \<le> 0 \<longrightarrow>
          videoFrames chartDuration endingDuration chartData
            = Inr (growthFrames chartDuration chartData))"
proof (intro conjI allI impI)
  show "growthFrames chartDuration chartData \<noteq> []"
    using assms by (rule growthFrames_first)
  from assms obtain x xs where "chartData = x # xs" by (cases chartData) auto
  then show "points (hd (growthFrames chartDuration chartData)) = [chartData ! 0]"
    using growthFrames_first(2) [OF assms, of chartDuration] by (simp add: growthFrame_def)
next
  fix e
  assume e: "endingFrames endingDuration = Fin (of_int e) \<and> 1 \<le> e
            \<and> length (growthFrames chartDuration chartData) + nat e \<le> 2 ^ 32 - 1"
  define final where "final = replicate (nat e) (finalFrame chartData)"
  from e have "videoFrames chartDuration endingDuration chartData
      = Inr (growthFrames chartDuration chartData @ final)"
    unfolding final_def by (intro videoFrames_nonempty [OF assms]) simp_all
  moreover from e have "final \<noteq> []" by (simp add: final_def)
  moreover have "\<forall>f\<in>set final.
      points f = chartData \<and> isFinal f \<and> last chartData \<in> set (points f)"
    using assms by (auto simp: final_def finalFrame_def)
  ultimately show "\<exists>final. videoFrames chartDuration endingDuration chartData
                      = Inr (growthFrames chartDuration chartData @ final)
             \<and> final \<noteq> []
             \<and> (\<forall>f\<in>set final.
                   points f = chartData \<and> isFinal f \<and> last chartData \<in> set (points f))"
    by blast
next
  fix e
  assume e: "endingFrames endingDuration = Fin (of_int e) \<and> e \<le> 0"
  then have "endingLoop (finalFrame chartData) (endingFrames endingDuration) 0
               (growthFrames chartDuration chartData)
             = Inr (growthFrames chartDuration chartData)"
    by (subst endingLoop.simps) simp
  with assms show "videoFrames chartDuration endingDuration chartData
            = Inr (growthFrames chartDuration chartData)"
    by (simp add: videoFrames_def freezeFrames_def)
next
  fix s
  assume st: "frameStep (length chartData) (chartFrames chartDuration) = Fin (real s)"
  let ?n = "length chartData"
  let ?q = "(?n - 1) div s"
  from frameStep_finite_ge_1 [OF st] have s: "0 < s" by simp
  from assms have n: "0 < ?n" by simp
  have gf: "growthFrames chartDuration chartData =
      map (\<lambda>j. growthFrame chartData (j * s)) [0 ..< Suc ?q]"
    using growthFrames_finite_step [OF st s] growth_count_ceiling [OF s n] by simp
  show "points (last (growthFrames chartDuration chartData)) = take (s * ?q + 1) chartData"
    unfolding gf by (simp add: growthFrame_def mult.commute)
  show "\<forall>f\<in>set (growthFrames chartDuration chartData).
          \<exists>m\<le>s * ?q + 1. points f = take m chartData"
  proof
    fix f assume "f \<in> set (growthFrames chartDuration chartData)"
    then have "f \<in> (\<lambda>j. growthFrame chartData (j * s)) ` {0 ..< Suc ?q}"
      unfolding gf by (simp only: set_map set_upt)
    then obtain j where j: "j \<le> ?q" and f: "f = growthFrame chartData (j * s)"
      by (auto simp: less_Suc_eq_le)
    from j have "j * s + 1 \<le> s * ?q + 1" by (simp add: mult.commute)
    moreover from f have "points f = take (j * s + 1) chartData" by (simp add: growthFrame_def)
    ultimately show "\<exists>m\<le>s * ?q + 1. points f = take m chartData" by blast
  qed
  have "?n - 1 = s * ?q + (?n - 1) mod s" by simp
  with n show "?n - (s * ?q + 1) = (?n - 1) mod s" by linarith
  from s show "(?n - 1) mod s \<le> s - 1"
    using mod_less_divisor [OF s, of "?n - 1"] by linarith
qed

theorem C10_frame_contents_witness:
  "growthFrames (double (1 / 10)) (chartSeries 8) \<noteq> []
   \<and> points (hd (growthFrames (double (1 / 10)) (chartSeries 8))) = [chartSeries 8 ! 0]
   \<and> frameStep (length (chartSeries 8)) (chartFrames (double (1 / 10))) = Fin (real 2)
   \<and> points (last (growthFrames (double (1 / 10)) (chartSeries 8))) = take 7 (chartSeries 8)
   \<and> length (chartSeries 8) - 7 = 1
   \<and> (\<exists>final. videoFrames (double (1 / 10)) 3 (chartSeries 8)
                 = Inr (growthFrames (double (1 / 10)) (chartSeries 8) @ final)
         \<and> final \<noteq> []
         \<and> (\<forall>f\<in>set final. points f = chartSeries 8 \<and> isFinal f
               \<and> last (chartSeries 8) \<in> set (points f)))
   \<and> videoFrames (double (1 / 10)) (double (1 / 100)) (chartSeries 8)
       = Inr (growthFrames (double (1 / 10)) (chartSeries 8))"
proof -
  have ne: "chartSeries 8 \<noteq> []" and len: "length (chartSeries 8) = 8"
    by (simp_all add: chartSeries_def)
  have st: "frameStep (length (chartSeries 8)) (chartFrames (double (1 / 10))) = Fin (real 2)"
    by (simp add: len chartFrames_tenth frameStep_8_3)
  have gl: "length (growthFrames (double (1 / 10)) (chartSeries 8)) = 4"
    by (simp add: growthFrames_eight)
  note c10 = C10_frame_contents [OF ne, where chartDuration = "double (1 / 10)"]
  from c10 [where endingDuration = 3]
  have a: "growthFrames (double (1 / 10)) (chartSeries 8) \<noteq> []"
    and b: "points (hd (growthFrames (double (1 / 10)) (chartSeries 8))) = [chartSeries 8 ! 0]"
    by blast+
  from c10 [where endingDuration = 3]
  have "\<forall>e. endingFrames 3 = Fin (of_int e) \<and> 1 \<le> e
            \<and> length (growthFrames (double (1 / 10)) (chartSeries 8)) + nat e \<le> 2 ^ 32 - 1 \<longrightarrow>
          (\<exists>final. videoFrames (double (1 / 10)) 3 (chartSeries 8)
                      = Inr (growthFrames (double (1 / 10)) (chartSeries 8) @ final)
             \<and> final \<noteq> []
             \<and> (\<forall>f\<in>set final. points f = chartSeries 8 \<and> isFinal f
                   \<and> last (chartSeries 8) \<in> set (points f)))"
    by blast
  from this [rule_format, of 90]
  have d: "\<exists>final. videoFrames (double (1 / 10)) 3 (chartSeries 8)
                 = Inr (growthFrames (double (1 / 10)) (chartSeries 8) @ final)
         \<and> final \<noteq> []
         \<and> (\<forall>f\<in>set final. points f = chartSeries 8 \<and> isFinal f
               \<and> last (chartSeries 8) \<in> set (points f))"
    by (simp add: endingFrames_3 gl)
  from c10 [where endingDuration = "double (1 / 100)"]
  have "\<forall>e. endingFrames (double (1 / 100)) = Fin (of_int e) \<and> e \<le> 0 \<longrightarrow>
          videoFrames (double (1 / 10)) (double (1 / 100)) (chartSeries 8)
            = Inr (growthFrames (double (1 / 10)) (chartSeries 8))"
    by blast
  from this [rule_format, of 0]
  have e: "videoFrames (double (1 / 10)) (double (1 / 100)) (chartSeries 8)
            = Inr (growthFrames (double (1 / 10)) (chartSeries 8))"
    by (simp add: endingFrames_hundredth)
  from c10 [where endingDuration = 3]
  have "\<forall>s. frameStep (length (chartSeries 8)) (chartFrames (double (1 / 10))) = Fin (real s) \<longrightarrow>
      points (last (growthFrames (double (1 / 10)) (chartSeries 8)))
        = take (s * ((length (chartSeries 8) - 1) div s) + 1) (chartSeries 8)
      \<and> length (chartSeries 8) - (s * ((length (chartSeries 8) - 1) div s) + 1)
          = (length (chartSeries 8) - 1) mod s"
    by blast
  with st have "points (last (growthFrames (double (1 / 10)) (chartSeries 8)))
        = take (2 * ((length (chartSeries 8) - 1) div 2) + 1) (chartSeries 8)
      \<and> length (chartSeries 8) - (2 * ((length (chartSeries 8) - 1) div 2) + 1)
          = (length (chartSeries 8) - 1) mod 2"
    by blast
  then have c: "points (last (growthFrames (double (1 / 10)) (chartSeries 8)))
        = take 7 (chartSeries 8)
      \<and> length (chartSeries 8) - 7 = 1"
    by (simp add: len)
  from a b st c d e show ?thesis by blast
qed

end
